theory Spec2Isabelle
  imports Main "HOL-Library.Word"
begin

section \<open>Data model (src/models/call.model.js)\<close>

text \<open>
  User identities are MongoDB ObjectIds, modelled as natural numbers: two stored ids have
  the same \<^verbatim>\<open>toString()\<close> exactly when they are equal.
  A \<^verbatim>\<open>Date\<close> is its number of milliseconds since the epoch. Each call of \<^verbatim>\<open>new Date()\<close> is an
  explicit time argument of the operation that makes it. A JavaScript string is the list
  of its UTF-16 code units, which is what \<^verbatim>\<open>.length\<close> counts.
\<close>

type_synonym user_id = nat
type_synonym date = int
type_synonym js_string = "16 word list"

text \<open>
  A user id that arrives in a request body or path is a string, and the handlers compare
  it with \<^verbatim>\<open>toString()\<close> of a stored id, which is the id's 24 lower-case hexadecimal digits.
  What a handler does with such a string depends only on which of these it is:
  \<^item> \<open>Canonical u\<close>, the lower-case hexadecimal string of the id \<open>u\<close>, equal to \<open>u\<close>'s
    \<^verbatim>\<open>toString()\<close>; the authenticated user's \<^verbatim>\<open>req.user.id\<close> is of this kind and is taken as
    a \<open>user_id\<close> directly;
  \<^item> \<open>Variant u\<close>, the same 24 hexadecimal digits with some letter in upper case: it passes
    \<^verbatim>\<open>isMongoId\<close> and Mongoose casts it to \<open>u\<close>, but it is not equal to \<open>u\<close>'s \<^verbatim>\<open>toString()\<close>;
  \<^item> \<open>Bytes u\<close>, a string that is not 24 hexadecimal digits and that the ObjectId
    constructor still accepts (12 characters taken as bytes, where the library allows it);
  \<^item> \<open>Uncastable\<close>, any other string: casting it fails.
\<close>

datatype raw_id = Canonical user_id | Variant user_id | Bytes user_id | Uncastable

fun cast_id :: "raw_id \<Rightarrow> user_id option" where
  "cast_id (Canonical u) = Some u"
| "cast_id (Variant u) = Some u"
| "cast_id (Bytes u) = Some u"
| "cast_id Uncastable = None"

fun isMongoId :: "raw_id \<Rightarrow> bool" where
  "isMongoId (Canonical u) = True"
| "isMongoId (Variant u) = True"
| "isMongoId (Bytes u) = False"
| "isMongoId Uncastable = False"

datatype role = Host | Participant | Moderator
datatype call_status = Scheduled | Active | Ended | Cancelled
datatype invitation_status = Pending | Accepted | Declined | Expired
datatype quality = Excellent | Good | Fair | Poor | Disconnected

record permissions =
  canInvite :: bool
  canMute :: bool
  canKick :: bool
  canRecord :: bool

record media_state =
  audioEnabled :: bool
  videoEnabled :: bool
  screenSharing :: bool

text \<open>
  \<^verbatim>\<open>participantSchema\<close>. \<^verbatim>\<open>joinedAt\<close> has the schema default \<^verbatim>\<open>Date.now\<close>, so it is always
  present (and a \<^verbatim>\<open>Date\<close> object is truthy); \<^verbatim>\<open>leftAt\<close> and \<^verbatim>\<open>duration\<close> may be undefined.
\<close>

record participant =
  userId :: user_id
  joinedAt :: date
  leftAt :: "date option"
  p_duration :: "int option"
  role :: role
  permissions :: permissions
  mediaState :: media_state
  connectionQuality :: quality
  isActive :: bool

record invitation =
  inv_userId :: user_id
  invitedBy :: user_id
  invitedAt :: date
  inv_status :: invitation_status
  respondedAt :: "date option"

record chat_message =
  senderId :: user_id
  message :: js_string
  timestamp :: date
  messageType :: string

record settings =
  waitingRoom :: bool
  allowChat :: bool
  allowScreenShare :: bool
  allowRecording :: bool
  muteOnJoin :: bool
  disableVideo :: bool
  requirePassword :: bool
  password :: "string option"
  lockRoom :: bool

record analytics =
  totalParticipants :: nat
  maxConcurrentParticipants :: nat
  totalMessages :: nat

text \<open>
  \<^verbatim>\<open>callSchema\<close>, without the fields no operation below reads or writes (channel name, call
  type and mode, title, description, recording and Agora configuration, metadata).
  \<^verbatim>\<open>startedAt\<close> has the schema default \<^verbatim>\<open>Date.now\<close>.
\<close>

record call =
  host :: user_id
  participants :: "participant list"
  maxParticipants :: int
  status :: call_status
  scheduledFor :: "date option"
  startedAt :: date
  endedAt :: "date option"
  duration :: "int option"
  settings :: settings
  chatMessages :: "chat_message list"
  invitations :: "invitation list"
  analytics :: analytics

section \<open>Model methods\<close>

text \<open>The virtual \<^verbatim>\<open>activeParticipantsCount\<close>.\<close>

definition activeParticipantsCount :: "call \<Rightarrow> nat" where
  "activeParticipantsCount c = length (filter isActive (participants c))"

text \<open>
  \<^verbatim>\<open>Array.prototype.find\<close> returns the first match by reference and the source then assigns
  to its fields: the effect on the array is an update of the first matching element.
\<close>

fun update_first :: "('a \<Rightarrow> bool) \<Rightarrow> ('a \<Rightarrow> 'a) \<Rightarrow> 'a list \<Rightarrow> 'a list" where
  "update_first P f [] = []"
| "update_first P f (x # xs) = (if P x then f x # xs else x # update_first P f xs)"

text \<open>
  The \<^verbatim>\<open>pre('save')\<close> hook. \<^verbatim>\<open>Math.floor\<close> of the quotient is \<open>div\<close> on \<open>int\<close>.
  \<open>save\<close> stands for \<^verbatim>\<open>this.save()\<close> on a document whose changed paths pass validation.
\<close>

definition save :: "call \<Rightarrow> call" where
  "save c =
    (let c1 = (case endedAt c of
                 Some e \<Rightarrow> if status c = Ended
                           then c\<lparr>duration := Some ((e - startedAt c) div 1000)\<rparr> else c
               | None \<Rightarrow> c)
     in c1\<lparr>analytics :=
            \<lparr>totalParticipants = length (participants c1),
             maxConcurrentParticipants =
               max (maxConcurrentParticipants (analytics c1)) (activeParticipantsCount c1),
             totalMessages = length (chatMessages c1)\<rparr>\<rparr>)"

text \<open>
  How the handler loaded the document decides what \<^verbatim>\<open>p.userId\<close> is inside a model method.
  After a plain \<^verbatim>\<open>Call.findById\<close> it is the id. After
  \<^verbatim>\<open>.populate('participants.userId', ...)\<close> it is the user's document, whose \<^verbatim>\<open>toString()\<close>
  is a rendering of the document and never an id's hexadecimal string, or \<^verbatim>\<open>null\<close> when
  there is no document of that user, and \<^verbatim>\<open>null.toString()\<close> throws a \<^verbatim>\<open>TypeError\<close>. \<open>Populated exists\<close> carries which users' documents
  exist. The stored document holds the ids either way.
\<close>

datatype loading = FoundById | Populated "user_id \<Rightarrow> bool"

datatype reference = IdOf user_id | UserDocument | NullRef

fun user_ref :: "loading \<Rightarrow> participant \<Rightarrow> reference" where
  "user_ref FoundById p = IdOf (userId p)"
| "user_ref (Populated exists) p = (if exists (userId p) then UserDocument else NullRef)"

datatype thrown = TypeError

text \<open>
  \<^verbatim>\<open>this.participants.find(p => p.userId.toString() === userId.toString())\<close>: the callback
  runs on the elements in order until it returns true, and throws on a \<^verbatim>\<open>null\<close> reference.
  \<^verbatim>\<open>some\<close> with the same callback runs and throws alike and returns whether there is a match.
\<close>

fun find_participant :: "loading \<Rightarrow> user_id \<Rightarrow> participant list \<Rightarrow> thrown + participant option" where
  "find_participant l uid [] = Inr None"
| "find_participant l uid (p # ps) =
     (case user_ref l p of
        NullRef \<Rightarrow> Inl TypeError
      | UserDocument \<Rightarrow> find_participant l uid ps
      | IdOf i \<Rightarrow> if i = uid then Inr (Some p) else find_participant l uid ps)"

definition reactivate :: "date \<Rightarrow> participant \<Rightarrow> participant" where
  "reactivate now p = p\<lparr>isActive := True, joinedAt := now, leftAt := None\<rparr>"

text \<open>
  \<^verbatim>\<open>addParticipant(userId, role, permissions)\<close>. An absent key of the \<^verbatim>\<open>permissions\<close> argument
  is falsy, so the default \<^verbatim>\<open>{}\<close> is the record of four \<open>False\<close>. The pushed subdocument
  takes the schema defaults.
\<close>

definition new_participant :: "user_id \<Rightarrow> role \<Rightarrow> permissions \<Rightarrow> date \<Rightarrow> participant" where
  "new_participant uid r perms now =
    \<lparr>userId = uid, joinedAt = now, leftAt = None, p_duration = None, role = r,
     permissions =
       \<lparr>canInvite = (canInvite perms \<or> (r = Host \<or> r = Moderator)),
        canMute = (canMute perms \<or> (r = Host \<or> r = Moderator)),
        canKick = (canKick perms \<or> r = Host),
        canRecord = (canRecord perms \<or> r = Host)\<rparr>,
     mediaState = \<lparr>audioEnabled = True, videoEnabled = True, screenSharing = False\<rparr>,
     connectionQuality = Good, isActive = True\<rparr>"

text \<open>The branch of \<^verbatim>\<open>addParticipant\<close> that pushes a new entry and saves.\<close>

definition push_participant :: "call \<Rightarrow> user_id \<Rightarrow> role \<Rightarrow> permissions \<Rightarrow> date \<Rightarrow> call" where
  "push_participant c uid r perms now =
     save (c\<lparr>participants := participants c @ [new_participant uid r perms now]\<rparr>)"

definition addParticipant ::
  "loading \<Rightarrow> call \<Rightarrow> user_id \<Rightarrow> role \<Rightarrow> permissions \<Rightarrow> date \<Rightarrow> thrown + call" where
  "addParticipant l c uid r perms now =
    (case find_participant l uid (participants c) of
       Inl e \<Rightarrow> Inl e
     | Inr (Some existingParticipant) \<Rightarrow>
         Inr (if \<not> isActive existingParticipant
              then save (c\<lparr>participants :=
                     update_first (\<lambda>p. user_ref l p = IdOf uid) (reactivate now)
                       (participants c)\<rparr>)
              else save c)
     | Inr None \<Rightarrow> Inr (push_participant c uid r perms now))"

definition no_permissions :: permissions where
  "no_permissions = \<lparr>canInvite = False, canMute = False, canKick = False, canRecord = False\<rparr>"

definition deactivate :: "date \<Rightarrow> participant \<Rightarrow> participant" where
  "deactivate now p =
    p\<lparr>isActive := False, leftAt := Some now,
      p_duration := Some ((now - joinedAt p) div 1000)\<rparr>"

text \<open>
  \<^verbatim>\<open>removeParticipant\<close> and the model's \<^verbatim>\<open>endCall\<close> are only called on documents loaded with a
  plain \<^verbatim>\<open>Call.findById\<close>, where \<^verbatim>\<open>p.userId\<close> is the id.
\<close>

definition removeParticipant :: "call \<Rightarrow> user_id \<Rightarrow> date \<Rightarrow> call" where
  "removeParticipant c uid now =
    (case find (\<lambda>p. userId p = uid) (participants c) of
       Some p \<Rightarrow>
         (if isActive p
          then save (c\<lparr>participants :=
                 update_first (\<lambda>p. userId p = uid) (deactivate now) (participants c)\<rparr>)
          else save c)
     | None \<Rightarrow> save c)"

text \<open>The model method \<^verbatim>\<open>endCall()\<close>.\<close>

definition endCall_method :: "call \<Rightarrow> date \<Rightarrow> call" where
  "endCall_method c now =
    save (c\<lparr>status := Ended, endedAt := Some now,
            participants :=
              map (\<lambda>p. if isActive p then deactivate now p else p) (participants c)\<rparr>)"

datatype join_check = CanJoin | CannotJoin string

definition canUserJoin :: "loading \<Rightarrow> call \<Rightarrow> user_id \<Rightarrow> thrown + join_check" where
  "canUserJoin l c uid =
    (if status c \<noteq> Active \<and> status c \<noteq> Scheduled
     then Inr (CannotJoin ''Call is not active'')
     else if int (activeParticipantsCount c) \<ge> maxParticipants c
     then Inr (CannotJoin ''Call is full'')
     else if lockRoom (settings c) then
       (case find_participant l uid (participants c) of
          Inl e \<Rightarrow> Inl e
        | Inr found \<Rightarrow>
           (let isParticipant = (found \<noteq> None);
                hasInvitation =
                  list_ex (\<lambda>i. inv_userId i = uid \<and> inv_status i = Accepted) (invitations c)
            in if \<not> isParticipant \<and> \<not> hasInvitation then Inr (CannotJoin ''Room is locked'')
               else Inr CanJoin))
     else Inr CanJoin)"

text \<open>
  \<^verbatim>\<open>addChatMessage\<close> pushes a subdocument and saves. Saving validates the new subdocument
  against the \<^verbatim>\<open>chatMessages\<close> schema: \<^verbatim>\<open>message\<close> is required (an empty string fails) with
  \<^verbatim>\<open>maxlength\<close> 1000, \<^verbatim>\<open>messageType\<close> is one of the four enum values. A failed validation
  rejects with Mongoose's \<^verbatim>\<open>ValidationError\<close> and persists nothing.
\<close>

datatype mongoose_error = ValidationError

definition valid_chat_message :: "chat_message \<Rightarrow> bool" where
  "valid_chat_message m \<longleftrightarrow>
     message m \<noteq> [] \<and> length (message m) \<le> 1000 \<and>
     messageType m \<in> set [''text'', ''system'', ''file'', ''emoji'']"

definition addChatMessage ::
  "call \<Rightarrow> user_id \<Rightarrow> js_string \<Rightarrow> string \<Rightarrow> date \<Rightarrow> mongoose_error + call" where
  "addChatMessage c sid msg mtype now =
    (let m = \<lparr>senderId = sid, message = msg, timestamp = now, messageType = mtype\<rparr>
     in if valid_chat_message m then Inr (save (c\<lparr>chatMessages := chatMessages c @ [m]\<rparr>))
        else Inl ValidationError)"

section \<open>Controllers (src/controllers/call.controller.js)\<close>

text \<open>
  A handler receives the result of \<^verbatim>\<open>Call.findById\<close> (\<open>None\<close> when there is no such
  call) and returns the HTTP response, the document as persisted afterwards and the
  events sent through \<^verbatim>\<open>io.to(...).emit\<close>, in order. An exception inside the handler's
  \<^verbatim>\<open>try\<close> block is answered with status 500 by its \<^verbatim>\<open>catch\<close>.
\<close>

datatype response =
    Success string
  | SuccessCount string nat
  | Failure nat string

datatype event =
    UserJoinedCall user_id
  | UserLeftCall user_id
  | HostChanged user_id
  | CallEndedNoParticipants
  | CallEndedBy user_id
  | CallInvitation raw_id user_id
  | KickedFromCall raw_id
  | InvitationResponse user_id user_id invitation_status
  | NewChatMessage user_id js_string string

type_synonym outcome = "response \<times> call option \<times> event list"

subsection \<open>joinCall\<close>

text \<open>
  The handler loads the call with \<^verbatim>\<open>.populate('host', ...)\<close> and
  \<^verbatim>\<open>.populate('participants.userId', ...)\<close>, and the host's user document for its
  \<^verbatim>\<open>blockedUsers\<close>. \<open>users\<close> is the user collection as far as the handler reads it: for
  each user whose document exists, the ids in its \<^verbatim>\<open>blockedUsers\<close>. With the host's document
  gone, \<^verbatim>\<open>call.host\<close> is \<^verbatim>\<open>null\<close> and reading \<^verbatim>\<open>call.host._id\<close> throws.
\<close>

definition joinCall ::
  "call option \<Rightarrow> user_id \<Rightarrow> string option \<Rightarrow> (user_id \<rightharpoonup> user_id list) \<Rightarrow> date \<Rightarrow> outcome" where
  "joinCall found uid pw users now =
    (case found of
       None \<Rightarrow> (Failure 404 ''Call not found'', None, [])
     | Some c \<Rightarrow>
        (let l = Populated (\<lambda>u. users u \<noteq> None)
         in case canUserJoin l c uid of
           Inl e \<Rightarrow> (Failure 500 ''Failed to join call'', Some c, [])
         | Inr (CannotJoin reason) \<Rightarrow> (Failure 403 reason, Some c, [])
         | Inr CanJoin \<Rightarrow>
            if requirePassword (settings c) \<and> password (settings c) \<noteq> pw
            then (Failure 403 ''Invalid call password'', Some c, [])
            else (case users (host c) of
               None \<Rightarrow> (Failure 500 ''Failed to join call'', Some c, [])
             | Some blockedUsers \<Rightarrow>
                if list_ex (\<lambda>b. b = uid) blockedUsers
                then (Failure 403 ''You are not allowed to join this call'', Some c, [])
                else (case addParticipant l c uid Participant no_permissions now of
                   Inl e \<Rightarrow> (Failure 500 ''Failed to join call'', Some c, [])
                 | Inr c' \<Rightarrow>
                    (Success ''Joined call successfully'', Some c', [UserJoinedCall uid])))))"

subsection \<open>leaveCall\<close>

definition promote :: "participant \<Rightarrow> participant" where
  "promote p =
    p\<lparr>role := Host,
      permissions := \<lparr>canInvite = True, canMute = True, canKick = True, canRecord = True\<rparr>\<rparr>"

text \<open>
  The block under the comment "If host leaves and there are other participants, transfer
  host role": \<^verbatim>\<open>activeParticipants[0]\<close> is the first element of the participant array that
  passes the filter.
\<close>

definition transferHost :: "call \<Rightarrow> user_id \<Rightarrow> call \<times> event list" where
  "transferHost c uid =
    (if host c = uid \<and> activeParticipantsCount c > 0 then
       (case filter (\<lambda>p. isActive p \<and> userId p \<noteq> uid) (participants c) of
          [] \<Rightarrow> (c, [])
        | newHost # _ \<Rightarrow>
            (save (c\<lparr>host := userId newHost,
                     participants :=
                       update_first (\<lambda>p. isActive p \<and> userId p \<noteq> uid) promote
                         (participants c)\<rparr>),
             [HostChanged (userId newHost)]))
     else (c, []))"

text \<open>The block under the comment "End call if no active participants".\<close>

definition endIfEmpty :: "call \<Rightarrow> date \<Rightarrow> call \<times> event list" where
  "endIfEmpty c now =
    (if activeParticipantsCount c = 0 then (endCall_method c now, [CallEndedNoParticipants])
     else (c, []))"

text \<open>The handler's body once the call is found: the document it leaves and its events.\<close>

definition leaveCall_found :: "call \<Rightarrow> user_id \<Rightarrow> date \<Rightarrow> date \<Rightarrow> call \<times> event list" where
  "leaveCall_found c0 uid t_leave t_end =
    (let c1 = removeParticipant c0 uid t_leave;
         (c2, ev2) = transferHost c1 uid;
         (c3, ev3) = endIfEmpty c2 t_end
     in (c3, [UserLeftCall uid] @ ev2 @ ev3))"

definition leaveCall :: "call option \<Rightarrow> user_id \<Rightarrow> date \<Rightarrow> date \<Rightarrow> outcome" where
  "leaveCall found uid t_leave t_end =
    (case found of
       None \<Rightarrow> (Failure 404 ''Call not found'', None, [])
     | Some c0 \<Rightarrow>
        (let (c3, evs) = leaveCall_found c0 uid t_leave t_end
         in (Success ''Left call successfully'', Some c3, evs)))"

subsection \<open>endCall\<close>

definition endCall :: "call option \<Rightarrow> user_id \<Rightarrow> date \<Rightarrow> outcome" where
  "endCall found uid now =
    (case found of
       None \<Rightarrow> (Failure 404 ''Call not found'', None, [])
     | Some c \<Rightarrow>
        (let participant = find (\<lambda>p. userId p = uid) (participants c)
         in if host c \<noteq> uid \<and>
               (case participant of None \<Rightarrow> True | Some p \<Rightarrow> role p \<noteq> Moderator)
            then (Failure 403 ''Only the host or moderator can end the call'', Some c, [])
            else (Success ''Call ended successfully'', Some (endCall_method c now),
                  [CallEndedBy uid])))"

text \<open>
  The administrator's handler of the same name in src/controllers/admin.controller.js,
  which ends a call through the same model method.
\<close>

definition admin_endCall :: "call option \<Rightarrow> user_id \<Rightarrow> date \<Rightarrow> outcome" where
  "admin_endCall found adminId now =
    (case found of
       None \<Rightarrow> (Failure 404 ''Call not found'', None, [])
     | Some c \<Rightarrow>
        if status c = Ended then (Failure 400 ''Call already ended'', Some c, [])
        else (Success ''Call ended successfully'', Some (endCall_method c now),
              [CallEndedBy adminId]))"

subsection \<open>inviteToCall and respondToInvitation\<close>

definition new_invitation :: "user_id \<Rightarrow> date \<Rightarrow> user_id \<Rightarrow> invitation" where
  "new_invitation inviter now target =
    \<lparr>inv_userId = target, invitedBy = inviter, invitedAt = now, inv_status = Pending,
     respondedAt = None\<rparr>"

text \<open>
  \<^verbatim>\<open>inv.userId.toString() === inviteUserId\<close> and \<^verbatim>\<open>p.userId.toString() === inviteUserId\<close>
  compare a stored id's string with the request's string as it came.
\<close>

definition alreadyInvited :: "call \<Rightarrow> raw_id \<Rightarrow> bool" where
  "alreadyInvited c target = list_ex (\<lambda>i. Canonical (inv_userId i) = target) (invitations c)"

definition alreadyParticipating :: "call \<Rightarrow> raw_id \<Rightarrow> bool" where
  "alreadyParticipating c target = list_ex (\<lambda>p. Canonical (userId p) = target) (participants c)"

text \<open>
  The \<^verbatim>\<open>for\<close> loop tests every requested id against \<^verbatim>\<open>call.invitations\<close> and
  \<^verbatim>\<open>call.participants\<close>, neither of which changes during the loop, so it is a filter. The
  invitations pushed are cast to the schema: when a requested string does not cast to an
  ObjectId the save is rejected, the handler's \<^verbatim>\<open>catch\<close> answers, and nothing is stored or
  sent. The events go to the rooms named after the requested strings.
\<close>

definition inviteToCall :: "call option \<Rightarrow> user_id \<Rightarrow> raw_id list \<Rightarrow> date \<Rightarrow> outcome" where
  "inviteToCall found uid userIds now =
    (if userIds = [] then (Failure 400 ''User IDs array is required'', found, [])
     else case found of
       None \<Rightarrow> (Failure 404 ''Call not found'', None, [])
     | Some c \<Rightarrow>
        (case find (\<lambda>p. userId p = uid \<and> isActive p) (participants c) of
           None \<Rightarrow> (Failure 403 ''You do not have permission to invite users'', Some c, [])
         | Some p \<Rightarrow>
            if \<not> canInvite (permissions p)
            then (Failure 403 ''You do not have permission to invite users'', Some c, [])
            else
              (let newInvitations =
                     filter (\<lambda>t. \<not> alreadyInvited c t \<and> \<not> alreadyParticipating c t) userIds
               in if newInvitations \<noteq> []
                  then (case those (map cast_id newInvitations) of
                     None \<Rightarrow> (Failure 500 ''Failed to send invitations'', Some c, [])
                   | Some ids \<Rightarrow>
                      (SuccessCount ''Invitations sent successfully'' (length newInvitations),
                       Some (save (c\<lparr>invitations :=
                               invitations c @ map (new_invitation uid now) ids\<rparr>)),
                       map (\<lambda>t. CallInvitation t uid) newInvitations))
                  else (SuccessCount ''Invitations sent successfully'' 0, Some c, []))))"

definition respond :: "invitation_status \<Rightarrow> date \<Rightarrow> invitation \<Rightarrow> invitation" where
  "respond r now i = i\<lparr>inv_status := r, respondedAt := Some now\<rparr>"

definition respondToInvitation ::
  "call option \<Rightarrow> user_id \<Rightarrow> invitation_status \<Rightarrow> date \<Rightarrow> outcome" where
  \<open>respondToInvitation found uid r now =
    (if r \<noteq> Accepted \<and> r \<noteq> Declined
     then (Failure 400 ''Invalid response. Must be "accepted" or "declined"'', found, [])
     else case found of
       None \<Rightarrow> (Failure 404 ''Call not found'', None, [])
     | Some c \<Rightarrow>
        (case find (\<lambda>i. inv_userId i = uid \<and> inv_status i = Pending) (invitations c) of
           None \<Rightarrow> (Failure 404 ''No pending invitation found'', Some c, [])
         | Some invitation \<Rightarrow>
            (Success (if r = Accepted then ''Invitation accepted successfully''
                      else ''Invitation declined successfully''),
             Some (save (c\<lparr>invitations :=
                     update_first (\<lambda>i. inv_userId i = uid \<and> inv_status i = Pending)
                       (respond r now) (invitations c)\<rparr>)),
             [InvitationResponse (invitedBy invitation) uid r])))\<close>


subsection \<open>sendChatMessage\<close>

text \<open>
  \<^verbatim>\<open>String.prototype.trim\<close> removes the ECMAScript white space and line terminator code
  units from both ends.
\<close>

definition js_whitespace :: "16 word \<Rightarrow> bool" where
  "js_whitespace w \<longleftrightarrow>
     w \<in> set [0x0009, 0x000A, 0x000B, 0x000C, 0x000D, 0x0020, 0x00A0, 0x1680,
              0x2000, 0x2001, 0x2002, 0x2003, 0x2004, 0x2005, 0x2006, 0x2007, 0x2008,
              0x2009, 0x200A, 0x2028, 0x2029, 0x202F, 0x205F, 0x3000, 0xFEFF]"

definition js_trim :: "js_string \<Rightarrow> js_string" where
  "js_trim s = rev (dropWhile js_whitespace (rev (dropWhile js_whitespace s)))"

text \<open>
  The request body's \<^verbatim>\<open>message\<close> is a string or absent (\<open>None\<close>); \<^verbatim>\<open>messageType\<close> defaults to
  \<^verbatim>\<open>'text'\<close> when absent. The route's validation chain is not consulted by this handler
  (it never reads \<^verbatim>\<open>validationResult\<close>), and its \<^verbatim>\<open>trim\<close> sanitizer is subsumed by the
  handler's own \<^verbatim>\<open>message.trim()\<close>.
\<close>

definition sendChatMessage ::
  "call option \<Rightarrow> user_id \<Rightarrow> js_string option \<Rightarrow> string option \<Rightarrow> date \<Rightarrow> outcome" where
  "sendChatMessage found uid msg mtype now =
    (let messageType = (case mtype of None \<Rightarrow> ''text'' | Some t \<Rightarrow> t)
     in case msg of
       None \<Rightarrow> (Failure 400 ''Message cannot be empty'', found, [])
     | Some m \<Rightarrow>
        if m = [] \<or> length (js_trim m) = 0
        then (Failure 400 ''Message cannot be empty'', found, [])
        else case found of
          None \<Rightarrow> (Failure 404 ''Call not found'', None, [])
        | Some c \<Rightarrow>
           (case find (\<lambda>p. userId p = uid \<and> isActive p) (participants c) of
              None \<Rightarrow> (Failure 403 ''You are not a participant in this call'', Some c, [])
            | Some participant \<Rightarrow>
               if \<not> allowChat (settings c)
               then (Failure 403 ''Chat is disabled for this call'', Some c, [])
               else (case addChatMessage c uid (js_trim m) messageType now of
                       Inl err \<Rightarrow> (Failure 500 ''Failed to send message'', Some c, [])
                     | Inr c' \<Rightarrow>
                        (Success ''Message sent successfully'', Some c',
                         [NewChatMessage uid (js_trim m) messageType]))))"

subsection \<open>createCall\<close>

text \<open>The fields of the creator's user document that the handler reads.\<close>

record user =
  user_isActive :: bool
  isEmailVerified :: bool
  feature_maxParticipants :: int
  recordingEnabled :: bool
  screenSharingEnabled :: bool

definition canMakeCall :: "user \<Rightarrow> bool" where
  "canMakeCall u \<longleftrightarrow> user_isActive u \<and> isEmailVerified u"

text \<open>The request body; an absent key is \<open>None\<close>.\<close>

record settings_request =
  rq_waitingRoom :: "bool option"
  rq_allowChat :: "bool option"
  rq_allowScreenShare :: "bool option"
  rq_allowRecording :: "bool option"
  rq_muteOnJoin :: "bool option"
  rq_disableVideo :: "bool option"
  rq_requirePassword :: "bool option"
  rq_password :: "string option"
  rq_lockRoom :: "bool option"

record create_request =
  rq_maxParticipants :: "int option"
  rq_scheduledFor :: "date option"
  rq_settings :: settings_request
  inviteUserIds :: "raw_id list"

definition truthy :: "bool option \<Rightarrow> bool" where
  "truthy b = (b = Some True)"

text \<open>
  Of the route's validation chain, which this handler does consult, the checks on the
  modelled fields: \<^verbatim>\<open>maxParticipants\<close> within 2..1000, a password of 4 to 20 characters, and
  \<^verbatim>\<open>isMongoId\<close> on every invited id.
\<close>

definition createCallValidation :: "create_request \<Rightarrow> bool" where
  "createCallValidation rq \<longleftrightarrow>
     (case rq_maxParticipants rq of None \<Rightarrow> True | Some n \<Rightarrow> 2 \<le> n \<and> n \<le> 1000) \<and>
     (case rq_password (rq_settings rq) of
        None \<Rightarrow> True | Some pw \<Rightarrow> 4 \<le> length pw \<and> length pw \<le> 20) \<and>
     list_all isMongoId (inviteUserIds rq)"

definition new_call :: "user \<Rightarrow> user_id \<Rightarrow> create_request \<Rightarrow> date \<Rightarrow> call" where
  "new_call u uid rq now =
    (let st = rq_settings rq
     in \<lparr>host = uid, participants = [],
         maxParticipants =
           min (case rq_maxParticipants rq of None \<Rightarrow> 50 | Some n \<Rightarrow> n)
               (feature_maxParticipants u),
         status = (if rq_scheduledFor rq \<noteq> None then Scheduled else Active),
         scheduledFor = rq_scheduledFor rq, startedAt = now, endedAt = None, duration = None,
         settings =
           \<lparr>waitingRoom = truthy (rq_waitingRoom st),
            allowChat = (rq_allowChat st \<noteq> Some False),
            allowScreenShare = (rq_allowScreenShare st \<noteq> Some False \<and> screenSharingEnabled u),
            allowRecording = (truthy (rq_allowRecording st) \<and> recordingEnabled u),
            muteOnJoin = truthy (rq_muteOnJoin st),
            disableVideo = truthy (rq_disableVideo st),
            requirePassword = truthy (rq_requirePassword st),
            password = rq_password st,
            lockRoom = truthy (rq_lockRoom st)\<rparr>,
         chatMessages = [], invitations = [],
         analytics =
           \<lparr>totalParticipants = 0, maxConcurrentParticipants = 0, totalMessages = 0\<rparr>\<rparr>)"

text \<open>
  The first save of the new document validates \<^verbatim>\<open>maxParticipants\<close> against the schema's
  \<^verbatim>\<open>min: 2\<close> and \<^verbatim>\<open>max: 1000\<close>; a failure is thrown inside \<^verbatim>\<open>addParticipant\<close>, before
  anything is stored. The new document's participant ids are ids. The invitations pushed
  afterwards are cast to the schema like those of \<open>inviteToCall\<close>; after the validation
  every invited id casts.
\<close>

definition createCall :: "user \<Rightarrow> user_id \<Rightarrow> create_request \<Rightarrow> date \<Rightarrow> outcome" where
  "createCall u uid rq now =
    (if \<not> createCallValidation rq then (Failure 400 ''Validation failed'', None, [])
     else if \<not> canMakeCall u
     then (Failure 403 ''Please verify your email to make calls'', None, [])
     else
       (let c0 = new_call u uid rq now
        in if maxParticipants c0 < 2 \<or> maxParticipants c0 > 1000
           then (Failure 500 ''Failed to create call'', None, [])
           else
             (case addParticipant FoundById c0 uid Host
                     \<lparr>canInvite = True, canMute = True, canKick = True,
                      canRecord = recordingEnabled u\<rparr> now of
                Inl e \<Rightarrow> (Failure 500 ''Failed to create call'', None, [])
              | Inr c1 \<Rightarrow>
                 (case those (map cast_id (inviteUserIds rq)) of
                    None \<Rightarrow> (Failure 500 ''Failed to create call'', Some c1, [])
                  | Some ids \<Rightarrow>
                     (let c2 = (if length (inviteUserIds rq) > 0
                                then c1\<lparr>invitations := invitations c1 @
                                       map (new_invitation uid now) ids\<rparr>
                                else c1)
                      in (Success ''Call created successfully'', Some (save c2),
                          map (\<lambda>t. CallInvitation t uid) (inviteUserIds rq)))))))"

section \<open>Administrator's handlers (src/controllers/admin.controller.js)\<close>

text \<open>
  \<^verbatim>\<open>kickUserFromCall\<close> passes the path parameter to \<^verbatim>\<open>removeParticipant\<close>, whose comparison
  \<^verbatim>\<open>p.userId.toString() === userId.toString()\<close> then holds for the canonical string of a
  participant's id only; without a match \<^verbatim>\<open>removeParticipant\<close> just saves. The handler has no
  auto-end.
\<close>

definition kickUserFromCall :: "call option \<Rightarrow> raw_id \<Rightarrow> date \<Rightarrow> outcome" where
  "kickUserFromCall found target now =
    (case found of
       None \<Rightarrow> (Failure 404 ''Call not found'', None, [])
     | Some c \<Rightarrow>
        (Success ''User kicked from call successfully'',
         Some (case target of Canonical u \<Rightarrow> removeParticipant c u now | _ \<Rightarrow> save c),
         [KickedFromCall target]))"

text \<open>
  \<^verbatim>\<open>deleteUser\<close> deletes the user's document and, when there was one, pulls the user's
  participant entries from every call with \<^verbatim>\<open>Call.updateMany\<close>, which casts the path parameter
  to an id and runs no \<^verbatim>\<open>save\<close> hook. \<open>found\<close> is a stored call and \<open>userFound\<close> tells whether
  the user's document existed.
\<close>

definition deleteUser :: "call option \<Rightarrow> raw_id \<Rightarrow> bool \<Rightarrow> outcome" where
  "deleteUser found target userFound =
    (case cast_id target of
       None \<Rightarrow> (Failure 500 ''Failed to delete user'', found, [])
     | Some u \<Rightarrow>
        if \<not> userFound then (Failure 404 ''User not found'', found, [])
        else (Success ''User deleted successfully'',
              map_option (\<lambda>c. c\<lparr>participants := filter (\<lambda>p. userId p \<noteq> u) (participants c)\<rparr>)
                found,
              []))"

section \<open>Sequences of requests on one call\<close>

text \<open>
  The document a handler leaves in the store is the one the next request's
  \<^verbatim>\<open>Call.findById\<close> returns. The requests are those whose handlers write the modelled
  fields of a call; \<^verbatim>\<open>updateMediaState\<close> and the recording webhooks write only fields that
  no property below reads.
\<close>

definition persisted :: "outcome \<Rightarrow> call option" where
  "persisted out = fst (snd out)"

definition emitted :: "outcome \<Rightarrow> event list" where
  "emitted out = snd (snd out)"

text \<open>A user collection in which every user's document exists and nobody is blocked.\<close>

definition everyone :: "user_id \<rightharpoonup> user_id list" where
  "everyone = (\<lambda>u. Some [])"

datatype request =
    JoinRequest user_id "string option" "user_id \<rightharpoonup> user_id list" date
  | LeaveRequest user_id date date
  | EndRequest user_id date
  | AdminEndRequest user_id date
  | KickRequest raw_id date
  | DeleteUserRequest raw_id bool date
  | InviteRequest user_id "raw_id list" date
  | RespondRequest user_id invitation_status date
  | ChatRequest user_id "js_string option" "string option" date

fun handle :: "call option \<Rightarrow> request \<Rightarrow> call option" where
  "handle found (JoinRequest uid pw users now) = persisted (joinCall found uid pw users now)"
| "handle found (LeaveRequest uid t_leave t_end) = persisted (leaveCall found uid t_leave t_end)"
| "handle found (EndRequest uid now) = persisted (endCall found uid now)"
| "handle found (AdminEndRequest adminId now) = persisted (admin_endCall found adminId now)"
| "handle found (KickRequest target now) = persisted (kickUserFromCall found target now)"
| "handle found (DeleteUserRequest target userFound now) =
     persisted (deleteUser found target userFound)"
| "handle found (InviteRequest uid targets now) = persisted (inviteToCall found uid targets now)"
| "handle found (RespondRequest uid r now) = persisted (respondToInvitation found uid r now)"
| "handle found (ChatRequest uid msg mtype now) = persisted (sendChatMessage found uid msg mtype now)"

definition handle_all :: "call option \<Rightarrow> request list \<Rightarrow> call option" where
  "handle_all found rs = foldl handle found rs"

text \<open>The time at which a request is handled.\<close>

fun request_time :: "request \<Rightarrow> date" where
  "request_time (JoinRequest uid pw users now) = now"
| "request_time (LeaveRequest uid t_leave t_end) = t_leave"
| "request_time (EndRequest uid now) = now"
| "request_time (AdminEndRequest adminId now) = now"
| "request_time (KickRequest target now) = now"
| "request_time (DeleteUserRequest target userFound now) = now"
| "request_time (InviteRequest uid targets now) = now"
| "request_time (RespondRequest uid r now) = now"
| "request_time (ChatRequest uid msg mtype now) = now"

definition active_entries :: "call \<Rightarrow> user_id \<Rightarrow> participant list" where
  "active_entries c uid = filter (\<lambda>p. userId p = uid \<and> isActive p) (participants c)"

definition pending_invitations :: "call \<Rightarrow> user_id \<Rightarrow> invitation list" where
  "pending_invitations c target =
     filter (\<lambda>i. inv_userId i = target \<and> inv_status i = Pending) (invitations c)"

definition accepted_invitations :: "call \<Rightarrow> user_id \<Rightarrow> invitation list" where
  "accepted_invitations c target =
     filter (\<lambda>i. inv_userId i = target \<and> inv_status i = Accepted) (invitations c)"

text \<open>The remaining active participants when \<open>uid\<close> leaves, in array order.\<close>

definition remaining_active :: "call \<Rightarrow> user_id \<Rightarrow> participant list" where
  "remaining_active c uid = filter (\<lambda>p. isActive p \<and> userId p \<noteq> uid) (participants c)"

section \<open>Signalling relay (the Socket.IO handlers of the server entry file)\<close>

text \<open>
  The module-level maps \<^verbatim>\<open>connectedUsers\<close> and \<^verbatim>\<open>activeRooms\<close> (a \<^verbatim>\<open>Set\<close> keeps insertion order,
  so a room's members are a list without repetitions), the Socket.IO adapter's rooms
  (which sockets are in which room), and the call store, so that what a handler does to
  persisted calls can be stated. \<open>calls s r\<close> is the persisted call that the room
  identifier \<open>r\<close> names, if any.
\<close>

type_synonym socket_id = nat
type_synonym room_id = nat

record connection =
  socketId :: socket_id
  conn_status :: string
  conn_joinedAt :: date

record server =
  connectedUsers :: "user_id \<rightharpoonup> connection"
  activeRooms :: "room_id \<rightharpoonup> user_id list"
  socketRooms :: "room_id \<Rightarrow> socket_id set"
  calls :: "room_id \<rightharpoonup> call"

datatype socket_event =
    UserJoined user_id room_id
  | RoomParticipants room_id "(user_id \<times> connection option) list"

text \<open>An emission is the set of sockets it is delivered to and the event.\<close>

type_synonym emission = "socket_id set \<times> socket_event"

definition set_add :: "'a \<Rightarrow> 'a list \<Rightarrow> 'a list" where
  "set_add x xs = (if x \<in> set xs then xs else xs @ [x])"

text \<open>
  The \<^verbatim>\<open>'join-room'\<close> handler of the socket \<open>sock\<close> authenticated as \<open>uid\<close>. \<^verbatim>\<open>socket.to(roomId)\<close>
  addresses every socket in the room except \<open>sock\<close>; \<^verbatim>\<open>socket.emit\<close> addresses \<open>sock\<close>. The
  opaque \<^verbatim>\<open>userData\<close> payload is left out of the event.
\<close>

text \<open>The members of a room; a room without an entry in \<^verbatim>\<open>activeRooms\<close> has none.\<close>

definition room_members :: "server \<Rightarrow> room_id \<Rightarrow> user_id list" where
  "room_members s roomId = (case activeRooms s roomId of None \<Rightarrow> [] | Some m \<Rightarrow> m)"

definition joinRoom :: "server \<Rightarrow> socket_id \<Rightarrow> user_id \<Rightarrow> room_id \<Rightarrow> server \<times> emission list" where
  "joinRoom s sock uid roomId =
    (let rooms = (socketRooms s)(roomId := insert sock (socketRooms s roomId));
         members = set_add uid (room_members s roomId);
         roster = map (\<lambda>u. (u, connectedUsers s u)) (filter (\<lambda>u. u \<noteq> uid) members)
     in (s\<lparr>socketRooms := rooms, activeRooms := (activeRooms s)(roomId \<mapsto> members)\<rparr>,
         [(rooms roomId - {sock}, UserJoined uid roomId),
          ({sock}, RoomParticipants roomId roster)]))"


section \<open>The specification's choice of the new host\<close>

text \<open>
  Following the specification's words, "the participant with the earliest \<^verbatim>\<open>joinedAt\<close> among
  remaining active participants": the first entry of least \<^verbatim>\<open>joinedAt\<close>. It is compared below
  with the choice \<open>transferHost\<close> makes.
\<close>

fun earliest_joinedAt :: "participant list \<Rightarrow> participant option" where
  "earliest_joinedAt [] = None"
| "earliest_joinedAt (p # ps) =
     (case earliest_joinedAt ps of
        None \<Rightarrow> Some p
      | Some q \<Rightarrow> if joinedAt p \<le> joinedAt q then Some p else Some q)"

section \<open>Example requests and calls\<close>

definition example_user :: user where
  "example_user =
    \<lparr>user_isActive = True, isEmailVerified = True, feature_maxParticipants = 4,
     recordingEnabled = False, screenSharingEnabled = True\<rparr>"

definition no_settings :: settings_request where
  "no_settings =
    \<lparr>rq_waitingRoom = None, rq_allowChat = None, rq_allowScreenShare = None,
     rq_allowRecording = None, rq_muteOnJoin = None, rq_disableVideo = None,
     rq_requirePassword = None, rq_password = None, rq_lockRoom = None\<rparr>"

definition plain_request :: create_request where
  "plain_request =
    \<lparr>rq_maxParticipants = None, rq_scheduledFor = None, rq_settings = no_settings,
     inviteUserIds = []\<rparr>"

definition locked_request :: create_request where
  "locked_request = plain_request\<lparr>rq_settings := no_settings\<lparr>rq_lockRoom := Some True\<rparr>\<rparr>"

definition host_permissions :: permissions where
  "host_permissions = \<lparr>canInvite = True, canMute = True, canKick = True, canRecord = False\<rparr>"

text \<open>User 10's call right after creation at time 0, and the same with a locked room.\<close>

definition example_call :: call where
  "example_call = push_participant (new_call example_user 10 plain_request 0) 10 Host host_permissions 0"

definition locked_call :: call where
  "locked_call = push_participant (new_call example_user 10 locked_request 0) 10 Host host_permissions 0"

text \<open>Users 2 and 3 join, user 2 leaves and comes back.\<close>

definition rejoin_requests :: "request list" where
  "rejoin_requests =
     [JoinRequest 2 None everyone 1000, JoinRequest 3 None everyone 2000,
      LeaveRequest 2 3000 3000, JoinRequest 2 None everyone 4000]"

definition rejoin_scenario :: "call option" where
  "rejoin_scenario =
    handle_all (persisted (createCall example_user 10 plain_request 0)) rejoin_requests"

text \<open>
  The call of \<open>rejoin_scenario\<close>, put together from the model methods the handlers call:
  the second join of user 2 is a push like the first.
\<close>

definition rejoin_call :: call where
  "rejoin_call =
    push_participant
      (removeParticipant
        (push_participant (push_participant example_call 2 Participant no_permissions 1000)
           3 Participant no_permissions 2000)
        2 3000)
      2 Participant no_permissions 4000"

text \<open>User 2 joins twice in a row.\<close>

definition double_join_scenario :: "call option" where
  "double_join_scenario =
    handle_all (persisted (createCall example_user 10 plain_request 0))
      [JoinRequest 2 None everyone 1000, JoinRequest 2 None everyone 2000]"

definition double_join_call :: call where
  "double_join_call =
    push_participant (push_participant example_call 2 Participant no_permissions 1000)
      2 Participant no_permissions 2000"

text \<open>User 2 joins, leaves and joins again.\<close>

definition return_scenario :: "call option" where
  "return_scenario =
    handle_all (persisted (createCall example_user 10 plain_request 0))
      [JoinRequest 2 None everyone 1000, LeaveRequest 2 3000 3000,
       JoinRequest 2 None everyone 4000]"

definition return_call :: call where
  "return_call =
    push_participant
      (removeParticipant (push_participant example_call 2 Participant no_permissions 1000) 2 3000)
      2 Participant no_permissions 4000"

text \<open>The host ends the call one minute after creating it.\<close>

definition ended_scenario :: "call option" where
  "ended_scenario = persisted (endCall (persisted (createCall example_user 10 plain_request 0)) 10 60000)"

text \<open>User 2 is invited and declines.\<close>

definition declined_scenario :: "call option" where
  "declined_scenario =
    persisted (respondToInvitation
      (persisted (inviteToCall
        (persisted (createCall example_user 10 plain_request 0)) 10 [Canonical 2] 1000))
      2 Declined 2000)"

text \<open>The administrator removes the host, the only participant, from a fresh call.\<close>

definition abandoned_call :: call where
  "abandoned_call = removeParticipant example_call 10 5000"

text \<open>Summaries of a document, for reading the examples.\<close>

definition roster_of :: "call \<Rightarrow> (user_id \<times> bool \<times> date) list" where
  "roster_of c = map (\<lambda>p. (userId p, isActive p, joinedAt p)) (participants c)"

definition invitations_of :: "call \<Rightarrow> (user_id \<times> invitation_status) list" where
  "invitations_of c = map (\<lambda>i. (inv_userId i, inv_status i)) (invitations c)"

text \<open>A message of 1000 letters \<^verbatim>\<open>a\<close>, and the same followed by a space.\<close>

definition thousand_letters :: js_string where
  "thousand_letters = replicate 1000 0x61"

definition padded_message :: js_string where
  "padded_message = thousand_letters @ [0x20]"

text \<open>A message of 1000 spaces.\<close>

definition thousand_spaces :: js_string where
  "thousand_spaces = replicate 1000 0x20"

text \<open>
  A server where room 7 names an ended call of user 10, nobody is connected to the room,
  and user 2 is online on socket 20.
\<close>

definition ended_call :: call where
  "ended_call = endCall_method example_call 60000"

definition example_server :: server where
  "example_server =
    \<lparr>connectedUsers = [2 \<mapsto> \<lparr>socketId = 20, conn_status = ''online'', conn_joinedAt = 70000\<rparr>],
     activeRooms = Map.empty,
     socketRooms = (\<lambda>r. {}),
     calls = [7 \<mapsto> ended_call]\<rparr>"

text \<open>A message of 1001 letters \<^verbatim>\<open>a\<close>.\<close>

definition long_message :: js_string where
  "long_message = thousand_letters @ [0x61]"

text \<open>The user the specification's rule makes host when \<open>uid\<close> leaves.\<close>

definition spec_new_host :: "call \<Rightarrow> user_id \<Rightarrow> user_id option" where
  "spec_new_host c uid = map_option userId (earliest_joinedAt (remaining_active c uid))"

text \<open>
  The document \<open>inviteToCall\<close> stores when it appends invitations for the users \<open>ids\<close>, and
  the one \<open>respondToInvitation\<close> stores.
\<close>

definition invited :: "call \<Rightarrow> user_id \<Rightarrow> user_id list \<Rightarrow> date \<Rightarrow> call" where
  "invited c uid ids now =
     save (c\<lparr>invitations := invitations c @ map (new_invitation uid now) ids\<rparr>)"

definition responded :: "call \<Rightarrow> user_id \<Rightarrow> invitation_status \<Rightarrow> date \<Rightarrow> call" where
  "responded c uid r now =
     save (c\<lparr>invitations :=
             update_first (\<lambda>i. inv_userId i = uid \<and> inv_status i = Pending) (respond r now)
               (invitations c)\<rparr>)"

text \<open>The requested strings that \<open>inviteToCall\<close> does not skip.\<close>

definition fresh_targets :: "call \<Rightarrow> raw_id list \<Rightarrow> raw_id list" where
  "fresh_targets c userIds =
     filter (\<lambda>t. \<not> alreadyInvited c t \<and> \<not> alreadyParticipating c t) userIds"

text \<open>
  The users of a list that have neither an invitation nor a participant entry in the call.
\<close>

definition fresh_users :: "call \<Rightarrow> user_id list \<Rightarrow> user_id list" where
  "fresh_users c us =
     filter (\<lambda>u. u \<notin> inv_userId ` set (invitations c) \<and> u \<notin> userId ` set (participants c)) us"

text \<open>User 2 has a pending invitation to \<open>example_call\<close>.\<close>

definition invited_call :: call where
  "invited_call = invited example_call 10 [2] 1000"

text \<open>User 2 is invited to \<open>example_call\<close> and declines: the call of \<open>declined_scenario\<close>.\<close>

definition declined_call :: call where
  "declined_call = responded invited_call 2 Declined 2000"

text \<open>A call for at most two participants with the host and user 2 in it.\<close>

definition small_request :: create_request where
  "small_request = plain_request\<lparr>rq_maxParticipants := Some 2\<rparr>"

definition full_call :: call where
  "full_call =
     push_participant
       (push_participant (new_call example_user 10 small_request 0) 10 Host host_permissions 0)
       2 Participant no_permissions 1000"

text \<open>The locked room with user 2 invited.\<close>

definition locked_invited_call :: call where
  "locked_invited_call = invited locked_call 10 [2] 1000"

section \<open>Two facts about a call after a leave request\<close>

text \<open>The user's entry, if there is one, is inactive.\<close>

definition left :: "call \<Rightarrow> user_id \<Rightarrow> bool" where
  "left c uid =
     (case find (\<lambda>p. userId p = uid) (participants c) of
        None \<Rightarrow> True | Some p \<Rightarrow> \<not> isActive p)"

text \<open>No host transfer from \<open>uid\<close> is due.\<close>

definition settled :: "call \<Rightarrow> user_id \<Rightarrow> bool" where
  "settled c uid \<longleftrightarrow> host c \<noteq> uid \<or> remaining_active c uid = []"

section \<open>Properties\<close>

subsection \<open>What saving changes\<close>

lemma save_fields [simp]:
  "participants (save c) = participants c"
  "status (save c) = status c"
  "host (save c) = host c"
  "invitations (save c) = invitations c"
  "chatMessages (save c) = chatMessages c"
  "endedAt (save c) = endedAt c"
  "startedAt (save c) = startedAt c"
  "settings (save c) = settings c"
  "maxParticipants (save c) = maxParticipants c"
  by (simp_all add: save_def Let_def split: option.splits)

lemma activeParticipantsCount_save [simp]:
  "activeParticipantsCount (save c) = activeParticipantsCount c"
  by (simp add: activeParticipantsCount_def)

lemma save_duration:
  "duration (save c) =
     (case endedAt c of
        Some e \<Rightarrow> if status c = Ended then Some ((e - startedAt c) div 1000) else duration c
      | None \<Rightarrow> duration c)"
  by (simp add: save_def Let_def split: option.splits)

lemma save_totalMessages [simp]:
  "totalMessages (analytics (save c)) = length (chatMessages c)"
  by (simp add: save_def Let_def split: option.splits)

lemma save_idem [simp]: "save (save c) = save c"
  by (simp add: save_def Let_def activeParticipantsCount_def split: option.splits)

subsection \<open>Lists\<close>

lemma find_Some_set: "find P xs = Some x \<Longrightarrow> x \<in> set xs \<and> P x"
  by (induction xs) (auto split: if_splits)

lemma count_update_first_preserving:
  "(\<And>x. isActive (f x) = isActive x) \<Longrightarrow>
   length (filter isActive (update_first P f xs)) = length (filter isActive xs)"
  by (induction xs) auto

lemma update_first_split:
  "filter P xs = x # rest \<Longrightarrow>
   \<exists>ys zs. xs = ys @ x # zs \<and> (\<forall>y \<in> set ys. \<not> P y) \<and> update_first P f xs = ys @ f x # zs"
proof (induction xs)
  case Nil
  then show ?case by simp
next
  case (Cons a xs)
  show ?case
  proof (cases "P a")
    case True
    with Cons.prems have "a = x" by simp
    then have "a # xs = [] @ x # xs \<and> (\<forall>y \<in> set []. \<not> P y)
        \<and> update_first P f (a # xs) = [] @ f x # xs"
      using True by simp
    then show ?thesis by blast
  next
    case False
    with Cons.prems have "filter P xs = x # rest" by simp
    from Cons.IH [OF this] obtain ys zs where
      "xs = ys @ x # zs" "\<forall>y \<in> set ys. \<not> P y" "update_first P f xs = ys @ f x # zs"
      by blast
    then have "a # xs = (a # ys) @ x # zs \<and> (\<forall>y \<in> set (a # ys). \<not> P y)
        \<and> update_first P f (a # xs) = (a # ys) @ f x # zs"
      using False by simp
    then show ?thesis by blast
  qed
qed

lemma update_first_no_match: "\<forall>x \<in> set xs. \<not> P x \<Longrightarrow> update_first P f xs = xs"
  by (induction xs) auto

subsection \<open>Fields of the participant updates\<close>

lemma promote_fields [simp]:
  "isActive (promote p) = isActive p"
  "userId (promote p) = userId p"
  "role (promote p) = Host"
  "joinedAt (promote p) = joinedAt p"
  "permissions (promote p) =
     \<lparr>canInvite = True, canMute = True, canKick = True, canRecord = True\<rparr>"
  by (simp_all add: promote_def)

lemma deactivate_fields [simp]:
  "isActive (deactivate t p) = False"
  "userId (deactivate t p) = userId p"
  "role (deactivate t p) = role p"
  "leftAt (deactivate t p) = Some t"
  by (simp_all add: deactivate_def)

lemma reactivate_fields [simp]:
  "isActive (reactivate t p) = True"
  "userId (reactivate t p) = userId p"
  "joinedAt (reactivate t p) = t"
  "leftAt (reactivate t p) = None"
  by (simp_all add: reactivate_def)

subsection \<open>Leaving\<close>

lemma no_active_iff:
  "activeParticipantsCount c = 0 \<longleftrightarrow> (\<forall>p \<in> set (participants c). \<not> isActive p)"
  by (simp add: activeParticipantsCount_def filter_empty_conv)

lemma removeParticipant_no_active:
  "activeParticipantsCount c = 0 \<Longrightarrow> removeParticipant c uid t = save c"
  by (auto simp: removeParticipant_def no_active_iff split: option.splits dest: find_Some_set)

lemma endCall_method_fields [simp]:
  "status (endCall_method c t) = Ended"
  "endedAt (endCall_method c t) = Some t"
  "startedAt (endCall_method c t) = startedAt c"
  "duration (endCall_method c t) = Some ((t - startedAt c) div 1000)"
  "host (endCall_method c t) = host c"
  by (simp_all add: endCall_method_def save_duration)

lemma endCall_method_no_active:
  "activeParticipantsCount c = 0 \<Longrightarrow> participants (endCall_method c t) = participants c"
  by (simp add: endCall_method_def no_active_iff map_idI)

lemma transferHost_count [simp]:
  "activeParticipantsCount (fst (transferHost c uid)) = activeParticipantsCount c"
  by (simp add: transferHost_def activeParticipantsCount_def count_update_first_preserving
      split: list.splits)

lemma transferHost_startedAt [simp]: "startedAt (fst (transferHost c uid)) = startedAt c"
  by (simp add: transferHost_def split: list.splits)

lemma removeParticipant_startedAt [simp]: "startedAt (removeParticipant c uid t) = startedAt c"
  by (simp add: removeParticipant_def split: option.splits)

lemma leaveCall_found_eq:
  "leaveCall_found c uid t_leave t_end =
     (fst (endIfEmpty (fst (transferHost (removeParticipant c uid t_leave) uid)) t_end),
      UserLeftCall uid # snd (transferHost (removeParticipant c uid t_leave) uid)
        @ snd (endIfEmpty (fst (transferHost (removeParticipant c uid t_leave) uid)) t_end))"
  by (simp add: leaveCall_found_def Let_def split: prod.splits)

lemma leaveCall_Some:
  "leaveCall (Some c) uid t_leave t_end =
     (Success ''Left call successfully'', Some (fst (leaveCall_found c uid t_leave t_end)),
      snd (leaveCall_found c uid t_leave t_end))"
  by (simp add: leaveCall_def split: prod.splits)

lemma removeParticipant_fields [simp]:
  "status (removeParticipant c uid t) = status c"
  "host (removeParticipant c uid t) = host c"
  "invitations (removeParticipant c uid t) = invitations c"
  "settings (removeParticipant c uid t) = settings c"
  "maxParticipants (removeParticipant c uid t) = maxParticipants c"
  "chatMessages (removeParticipant c uid t) = chatMessages c"
  by (simp_all add: removeParticipant_def split: option.splits)

lemma push_participant_fields [simp]:
  "participants (push_participant c uid r perms t) =
     participants c @ [new_participant uid r perms t]"
  "status (push_participant c uid r perms t) = status c"
  "host (push_participant c uid r perms t) = host c"
  "invitations (push_participant c uid r perms t) = invitations c"
  "settings (push_participant c uid r perms t) = settings c"
  "maxParticipants (push_participant c uid r perms t) = maxParticipants c"
  "startedAt (push_participant c uid r perms t) = startedAt c"
  "endedAt (push_participant c uid r perms t) = endedAt c"
  "chatMessages (push_participant c uid r perms t) = chatMessages c"
  by (simp_all add: push_participant_def)

lemma save_push_participant [simp]:
  "save (push_participant c uid r perms t) = push_participant c uid r perms t"
  by (simp add: push_participant_def)

lemma new_call_fields [simp]:
  "participants (new_call u uid rq t) = []"
  "host (new_call u uid rq t) = uid"
  "startedAt (new_call u uid rq t) = t"
  "invitations (new_call u uid rq t) = []"
  "chatMessages (new_call u uid rq t) = []"
  "status (new_call u uid rq t) = (if rq_scheduledFor rq \<noteq> None then Scheduled else Active)"
  "maxParticipants (new_call u uid rq t) =
     min (case rq_maxParticipants rq of None \<Rightarrow> 50 | Some n \<Rightarrow> n) (feature_maxParticipants u)"
  "lockRoom (settings (new_call u uid rq t)) = truthy (rq_lockRoom (rq_settings rq))"
  "allowChat (settings (new_call u uid rq t)) = (rq_allowChat (rq_settings rq) \<noteq> Some False)"
  "requirePassword (settings (new_call u uid rq t)) = truthy (rq_requirePassword (rq_settings rq))"
  by (simp_all add: new_call_def Let_def)

lemma addParticipant_first:
  "participants c = [] \<Longrightarrow>
   addParticipant l c uid r perms t = Inr (push_participant c uid r perms t)"
  by (simp add: addParticipant_def)

lemma example_call_fields [simp]:
  "participants example_call = [new_participant 10 Host host_permissions 0]"
  "status example_call = Active"
  "host example_call = 10"
  "startedAt example_call = 0"
  "invitations example_call = []"
  "maxParticipants example_call = 4"
  by (simp_all add: example_call_def plain_request_def example_user_def)

lemma new_participant_fields [simp]:
  "userId (new_participant uid r perms t) = uid"
  "isActive (new_participant uid r perms t) = True"
  "joinedAt (new_participant uid r perms t) = t"
  "role (new_participant uid r perms t) = r"
  by (simp_all add: new_participant_def)

text \<open>
  A call with status \<open>Active\<close> and no active participant arises when the administrator
  removes the last one: \<open>kickUserFromCall\<close> has no auto-end.
\<close>

lemma abandoned_call_reached:
  "kickUserFromCall (Some example_call) (Canonical 10) 5000 =
     (Success ''User kicked from call successfully'', Some abandoned_call,
      [KickedFromCall (Canonical 10)])"
  by (simp add: kickUserFromCall_def abandoned_call_def)

text \<open>
  C10. A leave request on a call without active participants, by any user, whether or not
  the user ever was a participant, ends the call: the handler answers with success, the
  stored call has status \<open>Ended\<close> and \<open>endedAt\<close> the time of the request, and the events are
  the user's leaving and the end of the call.
\<close>

theorem leaveCall_without_active_participants_ends_call:
  assumes "activeParticipantsCount c = 0"
  shows "leaveCall (Some c) uid t_leave t_end =
           (Success ''Left call successfully'', Some (endCall_method (save c) t_end),
            [UserLeftCall uid, CallEndedNoParticipants])
         \<and> status (endCall_method (save c) t_end) = Ended
         \<and> endedAt (endCall_method (save c) t_end) = Some t_end"
  using assms
  by (simp add: leaveCall_Some leaveCall_found_eq removeParticipant_no_active
      transferHost_def endIfEmpty_def)

theorem leaveCall_without_active_participants_witness:
  "status abandoned_call = Active \<and> activeParticipantsCount abandoned_call = 0
   \<and> find (\<lambda>p. userId p = 9) (participants abandoned_call) = None
   \<and> fst (leaveCall (Some abandoned_call) 9 7000 8000) = Success ''Left call successfully''
   \<and> map_option status (persisted (leaveCall (Some abandoned_call) 9 7000 8000)) = Some Ended"
proof -
  have parts: "participants abandoned_call =
      [deactivate 5000 (new_participant 10 Host host_permissions 0)]"
    by (simp add: abandoned_call_def removeParticipant_def)
  have h: "activeParticipantsCount abandoned_call = 0"
    by (simp add: parts activeParticipantsCount_def)
  have "status abandoned_call = Active"
    by (simp add: abandoned_call_def)
  moreover have "find (\<lambda>p. userId p = 9) (participants abandoned_call) = None"
    by (simp add: parts)
  ultimately show ?thesis
    using h leaveCall_without_active_participants_ends_call [OF h, of 9 7000 8000]
    by (simp add: persisted_def)
qed

text \<open>
  C5. When no active participant remains after a leave request, the stored call has
  status \<open>Ended\<close>, \<open>endedAt\<close> is the time of the request, and \<open>duration\<close> is the whole number
  of seconds between \<open>startedAt\<close> and \<open>endedAt\<close>.
\<close>

theorem leaveCall_last_participant_ends_call:
  assumes "leaveCall (Some c) uid t_leave t_end = (r, Some c', evs)"
    and "activeParticipantsCount c' = 0"
  shows "status c' = Ended \<and> endedAt c' = Some t_end
         \<and> duration c' = Some ((t_end - startedAt c) div 1000) \<and> startedAt c' = startedAt c"
proof -
  define c2 where "c2 = fst (transferHost (removeParticipant c uid t_leave) uid)"
  have c': "c' = fst (endIfEmpty c2 t_end)"
    using assms(1) by (simp add: leaveCall_Some leaveCall_found_eq c2_def)
  have started: "startedAt c2 = startedAt c"
    by (simp add: c2_def)
  show ?thesis
  proof (cases "activeParticipantsCount c2 = 0")
    case True
    then have "c' = endCall_method c2 t_end"
      by (simp add: c' endIfEmpty_def)
    then show ?thesis by (simp add: started)
  next
    case False
    then have "c' = c2" by (simp add: c' endIfEmpty_def)
    with False assms(2) show ?thesis by simp
  qed
qed

theorem leaveCall_last_participant_witness:
  "leaveCall (Some example_call) 10 90500 90700 =
     (Success ''Left call successfully'',
      Some (fst (leaveCall_found example_call 10 90500 90700)),
      snd (leaveCall_found example_call 10 90500 90700))
   \<and> activeParticipantsCount (fst (leaveCall_found example_call 10 90500 90700)) = 0
   \<and> status (fst (leaveCall_found example_call 10 90500 90700)) = Ended
   \<and> endedAt (fst (leaveCall_found example_call 10 90500 90700)) = Some 90700
   \<and> duration (fst (leaveCall_found example_call 10 90500 90700)) = Some 90"
proof -
  have eq: "leaveCall (Some example_call) 10 90500 90700 =
     (Success ''Left call successfully'',
      Some (fst (leaveCall_found example_call 10 90500 90700)),
      snd (leaveCall_found example_call 10 90500 90700))"
    by (rule leaveCall_Some)
  have none: "activeParticipantsCount (fst (leaveCall_found example_call 10 90500 90700)) = 0"
    by (simp add: leaveCall_found_eq removeParticipant_def
        transferHost_def endIfEmpty_def endCall_method_def activeParticipantsCount_def)
  show ?thesis
    using eq none leaveCall_last_participant_ends_call [OF eq none]
    by simp
qed

subsection \<open>Leaving twice\<close>

lemma find_update_first:
  "find P xs = Some p \<Longrightarrow> P (f p) \<Longrightarrow> find P (update_first P f xs) = Some (f p)"
  by (induction xs) (auto split: if_splits)

lemma find_map_preserving:
  "(\<And>x. P (g x) = P x) \<Longrightarrow> find P (map g xs) = map_option g (find P xs)"
  by (induction xs) auto

lemma left_removeParticipant: "left (removeParticipant c uid t) uid"
proof (cases "find (\<lambda>p. userId p = uid) (participants c)")
  case None
  then show ?thesis by (simp add: left_def removeParticipant_def)
next
  case (Some p)
  show ?thesis
  proof (cases "isActive p")
    case True
    have "find (\<lambda>p. userId p = uid)
            (update_first (\<lambda>p. userId p = uid) (deactivate t) (participants c))
          = Some (deactivate t p)"
      using Some find_Some_set [OF Some] by (intro find_update_first) simp_all
    with Some True show ?thesis by (simp add: left_def removeParticipant_def)
  next
    case False
    with Some show ?thesis by (simp add: left_def removeParticipant_def)
  qed
qed

lemma removeParticipant_left: "left c uid \<Longrightarrow> removeParticipant c uid t = save c"
  by (simp add: left_def removeParticipant_def split: option.splits)

lemma find_promote_others:
  "find (\<lambda>p. userId p = uid) (update_first (\<lambda>p. isActive p \<and> userId p \<noteq> uid) promote xs)
     = find (\<lambda>p. userId p = uid) xs"
  by (induction xs) auto

lemma left_transferHost: "left c uid \<Longrightarrow> left (fst (transferHost c uid)) uid"
  by (simp add: left_def transferHost_def find_promote_others split: list.splits)

lemma left_endCall_method: "left c uid \<Longrightarrow> left (endCall_method c t) uid"
proof -
  have "find (\<lambda>p. userId p = uid) (map (\<lambda>p. if isActive p then deactivate t p else p) xs)
      = map_option (\<lambda>p. if isActive p then deactivate t p else p) (find (\<lambda>p. userId p = uid) xs)"
    for xs
    by (rule find_map_preserving) simp
  then show "left c uid \<Longrightarrow> left (endCall_method c t) uid"
    by (simp add: left_def endCall_method_def split: option.splits)
qed

lemma left_endIfEmpty: "left c uid \<Longrightarrow> left (fst (endIfEmpty c t)) uid"
  by (simp add: endIfEmpty_def left_endCall_method)

lemma left_save [simp]: "left (save c) uid = left c uid"
  by (simp add: left_def)

lemma left_leaveCall_found: "left (fst (leaveCall_found c uid t_leave t_end)) uid"
  by (simp add: leaveCall_found_eq left_endIfEmpty left_transferHost left_removeParticipant)

text \<open>Every document a leave request stores is a saved one.\<close>

lemma save_removeParticipant [simp]: "save (removeParticipant c uid t) = removeParticipant c uid t"
  by (simp add: removeParticipant_def split: option.splits)

lemma save_transferHost:
  "save c = c \<Longrightarrow> save (fst (transferHost c uid)) = fst (transferHost c uid)"
  by (simp add: transferHost_def split: list.splits)

lemma save_endIfEmpty:
  "save c = c \<Longrightarrow> save (fst (endIfEmpty c t)) = fst (endIfEmpty c t)"
  by (simp add: endIfEmpty_def endCall_method_def)

lemma save_leaveCall_found:
  "save (fst (leaveCall_found c uid t_leave t_end)) = fst (leaveCall_found c uid t_leave t_end)"
  by (simp add: leaveCall_found_eq save_endIfEmpty save_transferHost)

lemma transferHost_settled: "settled c uid \<Longrightarrow> transferHost c uid = (c, [])"
  by (auto simp: settled_def transferHost_def remaining_active_def)

lemma remaining_active_save [simp]: "remaining_active (save c) uid = remaining_active c uid"
  by (simp add: remaining_active_def)

lemma settled_save [simp]: "settled (save c) uid = settled c uid"
  by (simp add: settled_def)

lemma filter_update_first_head:
  "filter P xs = x # rest \<Longrightarrow> P (f x) \<Longrightarrow> filter P (update_first P f xs) = f x # rest"
  by (induction xs) (auto split: if_splits)

lemma settled_transferHost: "settled (fst (transferHost c uid)) uid"
proof (cases "host c = uid \<and> activeParticipantsCount c > 0")
  case True
  show ?thesis
  proof (cases "remaining_active c uid")
    case Nil
    then show ?thesis by (simp add: settled_def transferHost_def remaining_active_def)
  next
    case (Cons newHost rest)
    then have "newHost \<in> set (remaining_active c uid)" by simp
    then have "userId newHost \<noteq> uid" by (simp add: remaining_active_def)
    with True Cons show ?thesis
      by (simp add: settled_def transferHost_def remaining_active_def)
  qed
next
  case False
  then have "transferHost c uid = (c, [])" by (auto simp: transferHost_def)
  moreover have "settled c uid"
  proof (cases "host c = uid")
    case True
    with False have "activeParticipantsCount c = 0" by simp
    then have "remaining_active c uid = []"
      by (simp add: no_active_iff remaining_active_def filter_empty_conv)
    then show ?thesis by (simp add: settled_def)
  next
    case False
    then show ?thesis by (simp add: settled_def)
  qed
  ultimately show ?thesis by simp
qed

lemma remaining_active_endCall_method [simp]: "remaining_active (endCall_method c t) uid = []"
  by (auto simp: remaining_active_def endCall_method_def filter_empty_conv)

lemma settled_endIfEmpty: "settled c uid \<Longrightarrow> settled (fst (endIfEmpty c t)) uid"
  by (simp add: endIfEmpty_def settled_def)

lemma settled_leaveCall_found: "settled (fst (leaveCall_found c uid t_leave t_end)) uid"
  by (simp add: leaveCall_found_eq settled_endIfEmpty settled_transferHost)

lemma second_leave:
  assumes "left c uid" and "settled c uid" and "save c = c"
  shows "fst (leaveCall_found c uid t_leave t_end) =
           (if activeParticipantsCount c = 0 then endCall_method c t_end else c)"
  using assms
  by (simp add: leaveCall_found_eq removeParticipant_left transferHost_settled endIfEmpty_def)

text \<open>
  C8. Leaving twice in a row. A second \<open>removeParticipant\<close> of the same user leaves the
  document exactly as the first one left it. A second leave request changes no participant
  entry and not the number of active participants; the document as a whole is unchanged
  unless the call has no active participant, in which case the auto-end runs again and
  the only difference is the new end time.
\<close>

theorem leave_twice_is_idempotent:
  "removeParticipant (removeParticipant c uid t1) uid t2 = removeParticipant c uid t1
   \<and> participants (fst (leaveCall_found (fst (leaveCall_found c uid t1 t1')) uid t2 t2'))
       = participants (fst (leaveCall_found c uid t1 t1'))
   \<and> activeParticipantsCount (fst (leaveCall_found (fst (leaveCall_found c uid t1 t1')) uid t2 t2'))
       = activeParticipantsCount (fst (leaveCall_found c uid t1 t1'))
   \<and> fst (leaveCall_found (fst (leaveCall_found c uid t1 t1')) uid t2 t2')
       = (if activeParticipantsCount (fst (leaveCall_found c uid t1 t1')) = 0
          then endCall_method (fst (leaveCall_found c uid t1 t1')) t2'
          else fst (leaveCall_found c uid t1 t1'))"
proof -
  define c' where "c' = fst (leaveCall_found c uid t1 t1')"
  have first: "removeParticipant (removeParticipant c uid t1) uid t2 = removeParticipant c uid t1"
    using removeParticipant_left [OF left_removeParticipant, of c uid t1 t2] by simp
  have second: "fst (leaveCall_found c' uid t2 t2') =
      (if activeParticipantsCount c' = 0 then endCall_method c' t2' else c')"
    unfolding c'_def
    by (rule second_leave [OF left_leaveCall_found settled_leaveCall_found save_leaveCall_found])
  have parts: "participants (fst (leaveCall_found c' uid t2 t2')) = participants c'"
    by (simp add: second endCall_method_no_active)
  have "activeParticipantsCount (fst (leaveCall_found c' uid t2 t2')) = activeParticipantsCount c'"
    using parts by (simp add: activeParticipantsCount_def)
  with first second parts show ?thesis
    unfolding c'_def by simp
qed

subsection \<open>Join requests\<close>

lemma find_participant_FoundById:
  "find_participant FoundById uid ps = Inr (find (\<lambda>p. userId p = uid) ps)"
  by (induction ps) auto

lemma find_participant_Populated:
  "find_participant (Populated exists) uid ps =
     (if list_all (\<lambda>p. exists (userId p)) ps then Inr None else Inl TypeError)"
  by (induction ps) auto

lemma addParticipant_Populated:
  "addParticipant (Populated exists) c uid r perms t =
     (if list_all (\<lambda>p. exists (userId p)) (participants c)
      then Inr (push_participant c uid r perms t) else Inl TypeError)"
  by (simp add: addParticipant_def find_participant_Populated)

lemma canUserJoin_Populated:
  "list_all (\<lambda>p. exists (userId p)) (participants c) \<Longrightarrow>
   canUserJoin (Populated exists) c uid =
     Inr (if status c \<noteq> Active \<and> status c \<noteq> Scheduled then CannotJoin ''Call is not active''
          else if maxParticipants c \<le> int (activeParticipantsCount c) then CannotJoin ''Call is full''
          else if lockRoom (settings c) \<and> accepted_invitations c uid = []
          then CannotJoin ''Room is locked'' else CanJoin)"
  by (auto simp: canUserJoin_def find_participant_Populated accepted_invitations_def
      list_ex_iff filter_empty_conv)

lemma everyone_exists [simp]:
  "everyone u = Some []"
  "list_all (\<lambda>p. everyone (userId p) \<noteq> None) ps"
  by (simp_all add: everyone_def list_all_iff)

lemma joinCall_admitted:
  assumes "canUserJoin (Populated (\<lambda>u. users u \<noteq> None)) c uid = Inr CanJoin"
    and "\<not> requirePassword (settings c)"
    and "users (host c) = Some blockedUsers" and "uid \<notin> set blockedUsers"
    and "list_all (\<lambda>p. users (userId p) \<noteq> None) (participants c)"
  shows "joinCall (Some c) uid pw users t =
     (Success ''Joined call successfully'',
      Some (push_participant c uid Participant no_permissions t), [UserJoinedCall uid])"
  using assms by (simp add: joinCall_def list_ex_iff addParticipant_Populated)

text \<open>
  What a join request stores: the call as it was, or the call with a new entry for the
  user pushed at the end. It never changes an existing entry.
\<close>

lemma joinCall_persisted:
  "persisted (joinCall (Some c) uid pw users t) = Some c \<or>
   persisted (joinCall (Some c) uid pw users t) =
     Some (push_participant c uid Participant no_permissions t)"
  by (simp add: joinCall_def persisted_def addParticipant_Populated Let_def
      split: sum.splits join_check.splits option.splits)

lemma createCall_plain:
  "createCall example_user 10 plain_request 0 =
     (Success ''Call created successfully'', Some example_call, [])"
  by (simp add: createCall_def createCallValidation_def canMakeCall_def plain_request_def
      no_settings_def example_user_def example_call_def host_permissions_def Let_def
      addParticipant_first)

lemma example_call_settings [simp]:
  "lockRoom (settings example_call) = False"
  "requirePassword (settings example_call) = False"
  "allowChat (settings example_call) = True"
  by (simp_all add: example_call_def plain_request_def no_settings_def truthy_def)

subsection \<open>Host failover\<close>

lemma remaining_active_update_leaver:
  "filter (\<lambda>p. isActive p \<and> userId p \<noteq> uid)
     (update_first (\<lambda>p. userId p = uid) (deactivate t) xs)
   = filter (\<lambda>p. isActive p \<and> userId p \<noteq> uid) xs"
  by (induction xs) auto

lemma remaining_active_removeParticipant [simp]:
  "remaining_active (removeParticipant c uid t) uid = remaining_active c uid"
  by (simp add: remaining_active_def removeParticipant_def remaining_active_update_leaver
      split: option.splits)

lemma remaining_active_count:
  "remaining_active c uid \<noteq> [] \<Longrightarrow> activeParticipantsCount c > 0"
proof -
  assume "remaining_active c uid \<noteq> []"
  then obtain p where "p \<in> set (participants c)" "isActive p"
    by (auto simp: remaining_active_def filter_empty_conv)
  then show ?thesis
    using no_active_iff [of c] by auto
qed

lemma sorted_filter_head_least:
  assumes "sorted (map f xs)" and eq: "filter P xs = x # rest"
  shows "\<forall>y \<in> set (filter P xs). f x \<le> f y"
proof -
  have "sorted (map f (filter P xs))"
    using assms(1) by (simp add: sorted_filter)
  then have "sorted (f x # map f rest)"
    unfolding eq by simp
  then show ?thesis
    unfolding eq by auto
qed

lemma leaveCall_found_host_leaves:
  assumes "host c = uid" and "remaining_active c uid = newHost # rest"
  shows "leaveCall_found c uid t_leave t_end =
      (save ((removeParticipant c uid t_leave)
               \<lparr>host := userId newHost,
                participants := update_first (\<lambda>p. isActive p \<and> userId p \<noteq> uid) promote
                                  (participants (removeParticipant c uid t_leave))\<rparr>),
       [UserLeftCall uid, HostChanged (userId newHost)])"
proof -
  define c1 where "c1 = removeParticipant c uid t_leave"
  have rem: "filter (\<lambda>p. isActive p \<and> userId p \<noteq> uid) (participants c1) = newHost # rest"
    using assms(2) remaining_active_removeParticipant [of c uid t_leave]
    by (simp add: c1_def remaining_active_def)
  have host1: "host c1 = uid"
    using assms(1) by (simp add: c1_def)
  have "remaining_active c1 uid \<noteq> []"
    using rem by (simp add: remaining_active_def)
  then have count1: "activeParticipantsCount c1 > 0"
    by (rule remaining_active_count)
  have th: "transferHost c1 uid =
      (save (c1\<lparr>host := userId newHost,
                participants := update_first (\<lambda>p. isActive p \<and> userId p \<noteq> uid) promote
                                  (participants c1)\<rparr>),
       [HostChanged (userId newHost)])"
    using host1 count1 rem by (simp add: transferHost_def)
  have "activeParticipantsCount (fst (transferHost c1 uid)) > 0"
    using count1 by simp
  then have "endIfEmpty (fst (transferHost c1 uid)) t_end = (fst (transferHost c1 uid), [])"
    by (simp add: endIfEmpty_def)
  then show ?thesis
    using th by (simp add: leaveCall_found_eq c1_def)
qed

lemma leaveCall_found_other_leaves:
  assumes "host c \<noteq> uid" and "activeParticipantsCount (removeParticipant c uid t_leave) > 0"
  shows "leaveCall_found c uid t_leave t_end = (removeParticipant c uid t_leave, [UserLeftCall uid])"
  using assms by (simp add: leaveCall_found_eq transferHost_def endIfEmpty_def)

text \<open>
  The \<open>joinedAt\<close> values along the participant array. A \<open>joinedAt\<close> is written when an entry
  is pushed; reactivation, the one other assignment, needs \<open>addParticipant\<close> to find the
  user's entry, which it does not in the populated document of a join request.
\<close>

lemma joinedAt_deactivate [simp]: "joinedAt (deactivate t p) = joinedAt p"
  by (simp add: deactivate_def)

lemma map_joinedAt_update_first:
  "(\<And>x. joinedAt (f x) = joinedAt x) \<Longrightarrow>
   map joinedAt (update_first P f xs) = map joinedAt xs"
  by (induction xs) auto

lemma joinedAt_removeParticipant [simp]:
  "map joinedAt (participants (removeParticipant c uid t)) = map joinedAt (participants c)"
  by (simp add: removeParticipant_def map_joinedAt_update_first split: option.splits)

lemma joinedAt_transferHost [simp]:
  "map joinedAt (participants (fst (transferHost c uid))) = map joinedAt (participants c)"
  by (simp add: transferHost_def map_joinedAt_update_first split: list.splits)

lemma joinedAt_endCall_method [simp]:
  "map joinedAt (participants (endCall_method c t)) = map joinedAt (participants c)"
  by (simp add: endCall_method_def comp_def)

lemma joinedAt_endIfEmpty [simp]:
  "map joinedAt (participants (fst (endIfEmpty c t))) = map joinedAt (participants c)"
  by (simp add: endIfEmpty_def)

lemma joinedAt_leaveCall_found [simp]:
  "map joinedAt (participants (fst (leaveCall_found c uid t_leave t_end))) =
     map joinedAt (participants c)"
  by (simp add: leaveCall_found_eq)

lemma handle_joinedAt:
  "\<exists>c'. handle (Some c) rq = Some c'
     \<and> (map joinedAt (participants c') = map joinedAt (participants c)
        \<or> map joinedAt (participants c') = map joinedAt (participants c) @ [request_time rq]
        \<or> (\<exists>P. map joinedAt (participants c') = map joinedAt (filter P (participants c))))"
proof (cases rq)
  case (JoinRequest uid pw users now)
  with joinCall_persisted [of c uid pw users now] show ?thesis by auto
next
  case (LeaveRequest uid t_leave t_end)
  then show ?thesis by (simp add: leaveCall_Some persisted_def)
next
  case (EndRequest uid now)
  then show ?thesis by (simp add: endCall_def persisted_def Let_def)
next
  case (AdminEndRequest adminId now)
  then show ?thesis by (simp add: admin_endCall_def persisted_def)
next
  case (KickRequest target now)
  then show ?thesis by (simp add: kickUserFromCall_def persisted_def split: raw_id.splits)
next
  case (DeleteUserRequest target userFound now)
  then show ?thesis by (auto simp: deleteUser_def persisted_def split: option.splits)
next
  case (InviteRequest uid targets now)
  then show ?thesis
    by (simp add: inviteToCall_def persisted_def Let_def split: option.splits)
next
  case (RespondRequest uid r now)
  then show ?thesis
    by (simp add: respondToInvitation_def persisted_def split: option.splits)
next
  case (ChatRequest uid msg mtype now)
  then show ?thesis
    by (simp add: sendChatMessage_def addChatMessage_def persisted_def Let_def
        split: option.splits sum.splits)
qed

lemma handle_all_sorted:
  assumes "sorted (map joinedAt (participants c))"
    and "\<forall>p \<in> set (participants c). joinedAt p \<le> t"
    and "sorted (t # map request_time rs)"
  shows "\<exists>c'. handle_all (Some c) rs = Some c' \<and> sorted (map joinedAt (participants c'))"
  using assms
proof (induction rs arbitrary: c t)
  case Nil
  then show ?case by (simp add: handle_all_def)
next
  case (Cons rq rs)
  from handle_joinedAt [of c rq] obtain c1 where
    c1: "handle (Some c) rq = Some c1"
    and shape: "map joinedAt (participants c1) = map joinedAt (participants c)
        \<or> map joinedAt (participants c1) = map joinedAt (participants c) @ [request_time rq]
        \<or> (\<exists>P. map joinedAt (participants c1) = map joinedAt (filter P (participants c)))"
    by blast
  from Cons.prems(3) have later: "t \<le> request_time rq"
    and rest: "sorted (request_time rq # map request_time rs)"
    by simp_all
  have bound: "\<forall>x \<in> set (map joinedAt (participants c)). x \<le> request_time rq"
    using Cons.prems(2) later by auto
  from shape consider
      (same) "map joinedAt (participants c1) = map joinedAt (participants c)"
    | (pushed) "map joinedAt (participants c1) = map joinedAt (participants c) @ [request_time rq]"
    | (pulled) P where "map joinedAt (participants c1) = map joinedAt (filter P (participants c))"
    by blast
  then have "sorted (map joinedAt (participants c1))
      \<and> (\<forall>x \<in> set (map joinedAt (participants c1)). x \<le> request_time rq)"
  proof cases
    case same
    show ?thesis unfolding same using Cons.prems(1) bound by blast
  next
    case pushed
    show ?thesis unfolding pushed using Cons.prems(1) bound by (simp add: sorted_append)
  next
    case pulled
    show ?thesis unfolding pulled
      using sorted_filter [OF Cons.prems(1), of P] bound by auto
  qed
  then have sorted1: "sorted (map joinedAt (participants c1))"
    and bound1: "\<forall>p \<in> set (participants c1). joinedAt p \<le> request_time rq"
    by simp_all
  from Cons.IH [OF sorted1 bound1 rest] c1 show ?case
    by (simp add: handle_all_def)
qed

lemma createCall_first_participant:
  "persisted (createCall u h rq t) = Some c \<Longrightarrow>
   participants c = [new_participant h Host
       \<lparr>canInvite = True, canMute = True, canKick = True, canRecord = recordingEnabled u\<rparr> t]"
  by (auto simp: createCall_def persisted_def Let_def addParticipant_first
      split: if_splits option.splits)

lemma earliest_joinedAt_member:
  "earliest_joinedAt ps = Some q \<Longrightarrow> q \<in> set ps"
  by (induction ps arbitrary: q) (auto split: option.splits if_splits)

lemma earliest_joinedAt_sorted:
  "sorted (map joinedAt (p # ps)) \<Longrightarrow> earliest_joinedAt (p # ps) = Some p"
proof (cases "earliest_joinedAt ps")
  case None
  then show ?thesis by simp
next
  case (Some q)
  assume "sorted (map joinedAt (p # ps))"
  moreover have "q \<in> set ps"
    using Some by (rule earliest_joinedAt_member)
  ultimately have "joinedAt p \<le> joinedAt q" by auto
  with Some show ?thesis by simp
qed

text \<open>
  C1. In a call that was created and has since handled any requests in the order of their
  times, when the host leaves and other active participants remain, exactly one entry of
  the participant array is changed: the first remaining active one, which has the
  earliest \<open>joinedAt\<close> among the remaining active participants and is the specification's
  choice. It gets role \<open>Host\<close> and all four permissions, the call's \<open>host\<close> becomes its user,
  and a host-changed event naming that user follows the user-left event.
\<close>

theorem host_failover_promotes_earliest_joined:
  assumes "persisted (createCall u h rq t_create) = Some c0"
    and "sorted (t_create # map request_time rs)"
    and "handle_all (Some c0) rs = Some c"
    and "host c = uid" and "remaining_active c uid = newHost # rest"
  shows "host (fst (leaveCall_found c uid t_leave t_end)) = userId newHost
    \<and> snd (leaveCall_found c uid t_leave t_end) = [UserLeftCall uid, HostChanged (userId newHost)]
    \<and> status (fst (leaveCall_found c uid t_leave t_end)) = status c
    \<and> (\<exists>ys zs. participants (removeParticipant c uid t_leave) = ys @ newHost # zs
          \<and> (\<forall>p \<in> set ys. \<not> (isActive p \<and> userId p \<noteq> uid))
          \<and> participants (fst (leaveCall_found c uid t_leave t_end)) = ys @ promote newHost # zs)
    \<and> role (promote newHost) = Host
    \<and> permissions (promote newHost) =
         \<lparr>canInvite = True, canMute = True, canKick = True, canRecord = True\<rparr>
    \<and> (\<forall>p \<in> set (remaining_active c uid). joinedAt newHost \<le> joinedAt p)
    \<and> earliest_joinedAt (remaining_active c uid) = Some newHost
    \<and> spec_new_host c uid = Some (host (fst (leaveCall_found c uid t_leave t_end)))"
proof -
  have "sorted (map joinedAt (participants c0))" "\<forall>p \<in> set (participants c0). joinedAt p \<le> t_create"
    using createCall_first_participant [OF assms(1)] by simp_all
  from handle_all_sorted [OF this assms(2)] assms(3)
  have sorted_c: "sorted (map joinedAt (participants c))"
    by simp
  then have sorted_rem: "sorted (map joinedAt (newHost # rest))"
    using sorted_filter [of joinedAt "participants c" "\<lambda>p. isActive p \<and> userId p \<noteq> uid"] assms(5)
    by (simp add: remaining_active_def)
  define c1 where "c1 = removeParticipant c uid t_leave"
  have rem: "filter (\<lambda>p. isActive p \<and> userId p \<noteq> uid) (participants c1) = newHost # rest"
    using assms(5) remaining_active_removeParticipant [of c uid t_leave]
    by (simp add: c1_def remaining_active_def)
  note res = leaveCall_found_host_leaves [OF assms(4,5), of t_leave t_end, folded c1_def]
  from update_first_split [OF rem, of promote] obtain ys zs where
    split: "participants c1 = ys @ newHost # zs"
      "\<forall>y \<in> set ys. \<not> (isActive y \<and> userId y \<noteq> uid)"
      "update_first (\<lambda>p. isActive p \<and> userId p \<noteq> uid) promote (participants c1)
         = ys @ promote newHost # zs"
    by blast
  have one: "\<exists>ys zs. participants (removeParticipant c uid t_leave) = ys @ newHost # zs
          \<and> (\<forall>p \<in> set ys. \<not> (isActive p \<and> userId p \<noteq> uid))
          \<and> participants (fst (leaveCall_found c uid t_leave t_end)) = ys @ promote newHost # zs"
    using split by (auto simp: res c1_def)
  have least: "\<forall>p \<in> set (remaining_active c uid). joinedAt newHost \<le> joinedAt p"
    using sorted_rem assms(5) by auto
  have earliest: "earliest_joinedAt (remaining_active c uid) = Some newHost"
    unfolding assms(5) using sorted_rem by (rule earliest_joinedAt_sorted)
  have st: "status (fst (leaveCall_found c uid t_leave t_end)) = status c"
    by (simp add: res c1_def)
  have hst: "host (fst (leaveCall_found c uid t_leave t_end)) = userId newHost"
    by (simp add: res)
  have spec: "spec_new_host c uid = Some (host (fst (leaveCall_found c uid t_leave t_end)))"
    by (simp add: spec_new_host_def earliest hst)
  have ev: "snd (leaveCall_found c uid t_leave t_end) = [UserLeftCall uid, HostChanged (userId newHost)]"
    by (simp add: res)
  from hst ev st one least earliest spec show ?thesis
    by simp
qed

lemma joinCall_open_call:
  assumes "status c = Active" and "int (activeParticipantsCount c) < maxParticipants c"
    and "\<not> lockRoom (settings c)" and "\<not> requirePassword (settings c)"
  shows "joinCall (Some c) uid pw everyone t =
     (Success ''Joined call successfully'',
      Some (push_participant c uid Participant no_permissions t), [UserJoinedCall uid])"
proof (rule joinCall_admitted [where blockedUsers = "[]"])
  show "canUserJoin (Populated (\<lambda>u. everyone u \<noteq> None)) c uid = Inr CanJoin"
    using assms by (simp add: canUserJoin_Populated list_all_iff)
qed (use assms in \<open>simp_all add: list_all_iff\<close>)

lemma rejoin_call_participants:
  "participants rejoin_call =
     [new_participant 10 Host host_permissions 0,
      deactivate 3000 (new_participant 2 Participant no_permissions 1000),
      new_participant 3 Participant no_permissions 2000,
      new_participant 2 Participant no_permissions 4000]"
  by (simp add: rejoin_call_def removeParticipant_def)

lemma rejoin_call_host [simp]: "host rejoin_call = 10"
  by (simp add: rejoin_call_def)

lemma rejoin_call_status [simp]: "status rejoin_call = Active"
  by (simp add: rejoin_call_def)

lemma rejoin_call_remaining:
  "remaining_active rejoin_call 10 =
     [new_participant 3 Participant no_permissions 2000,
      new_participant 2 Participant no_permissions 4000]"
  by (simp add: remaining_active_def rejoin_call_participants)

text \<open>The requests of \<open>rejoin_scenario\<close> lead to \<open>rejoin_call\<close>.\<close>

lemma rejoin_requests_handled: "handle_all (Some example_call) rejoin_requests = Some rejoin_call"
proof -
  define c1 where "c1 = push_participant example_call 2 Participant no_permissions 1000"
  define c2 where "c2 = push_participant c1 3 Participant no_permissions 2000"
  define c3 where "c3 = removeParticipant c2 2 3000"
  have p3: "participants c3 =
      [new_participant 10 Host host_permissions 0,
       deactivate 3000 (new_participant 2 Participant no_permissions 1000),
       new_participant 3 Participant no_permissions 2000]"
    by (simp add: c3_def c2_def c1_def removeParticipant_def)
  have j1: "joinCall (Some example_call) 2 None everyone 1000 =
      (Success ''Joined call successfully'', Some c1, [UserJoinedCall 2])"
    unfolding c1_def
    by (rule joinCall_open_call) (simp_all add: activeParticipantsCount_def)
  have j2: "joinCall (Some c1) 3 None everyone 2000 =
      (Success ''Joined call successfully'', Some c2, [UserJoinedCall 3])"
    unfolding c2_def
    by (rule joinCall_open_call) (simp_all add: c1_def activeParticipantsCount_def)
  have l3: "leaveCall_found c2 2 3000 3000 = (c3, [UserLeftCall 2])"
    unfolding c3_def
    by (rule leaveCall_found_other_leaves)
       (simp_all add: c3_def [symmetric] p3 activeParticipantsCount_def, simp add: c2_def c1_def)
  have j4: "joinCall (Some c3) 2 None everyone 4000 =
      (Success ''Joined call successfully'', Some rejoin_call, [UserJoinedCall 2])"
    unfolding rejoin_call_def c1_def [symmetric] c2_def [symmetric] c3_def [symmetric]
    by (rule joinCall_open_call)
       (simp_all add: activeParticipantsCount_def p3, simp_all add: c3_def c2_def c1_def)
  show ?thesis
    by (simp add: rejoin_requests_def handle_all_def persisted_def j1 j2 j4 leaveCall_Some l3)
qed

lemma rejoin_scenario_reached: "rejoin_scenario = Some rejoin_call"
  by (simp add: rejoin_scenario_def createCall_plain persisted_def [of "(_, _, _)"]
      rejoin_requests_handled)

theorem host_failover_witness:
  "persisted (createCall example_user 10 plain_request 0) = Some example_call
   \<and> sorted (0 # map request_time rejoin_requests)
   \<and> handle_all (Some example_call) rejoin_requests = Some rejoin_call
   \<and> host rejoin_call = 10
   \<and> roster_of rejoin_call = [(10, True, 0), (2, False, 1000), (3, True, 2000), (2, True, 4000)]
   \<and> map userId (remaining_active rejoin_call 10) = [3, 2]
   \<and> host (fst (leaveCall_found rejoin_call 10 5000 5000)) = 3
   \<and> snd (leaveCall_found rejoin_call 10 5000 5000) = [UserLeftCall 10, HostChanged 3]
   \<and> spec_new_host rejoin_call 10 = Some 3"
proof -
  have created: "persisted (createCall example_user 10 plain_request 0) = Some example_call"
    by (simp add: createCall_plain persisted_def)
  have times: "sorted (0 # map request_time rejoin_requests)"
    by (simp add: rejoin_requests_def)
  have roster: "roster_of rejoin_call =
      [(10, True, 0), (2, False, 1000), (3, True, 2000), (2, True, 4000)]"
    by (simp add: roster_of_def rejoin_call_participants)
  have ids: "map userId (remaining_active rejoin_call 10) = [3, 2]"
    unfolding rejoin_call_remaining by simp
  have "host (fst (leaveCall_found rejoin_call 10 5000 5000)) = 3
     \<and> snd (leaveCall_found rejoin_call 10 5000 5000) = [UserLeftCall 10, HostChanged 3]
     \<and> spec_new_host rejoin_call 10 = Some 3"
    using host_failover_promotes_earliest_joined
            [OF created times rejoin_requests_handled rejoin_call_host rejoin_call_remaining,
             of 5000 5000]
    by simp
  with created times rejoin_requests_handled roster ids show ?thesis by simp
qed

subsection \<open>Ending a call\<close>

lemma endCall_by_host:
  "host c = uid \<Longrightarrow>
   endCall (Some c) uid now =
     (Success ''Call ended successfully'', Some (endCall_method c now), [CallEndedBy uid])"
  by (simp add: endCall_def)

lemma endCall_by_stranger:
  "host c \<noteq> uid \<Longrightarrow> find (\<lambda>p. userId p = uid) (participants c) = None \<Longrightarrow>
   endCall (Some c) uid now =
     (Failure 403 ''Only the host or moderator can end the call'', Some c, [])"
  by (simp add: endCall_def)

lemma admin_endCall_ended:
  "status c = Ended \<Longrightarrow>
   admin_endCall (Some c) adminId now = (Failure 400 ''Call already ended'', Some c, [])"
  by (simp add: admin_endCall_def)

lemma ended_scenario_reached: "ended_scenario = Some ended_call"
  by (simp add: ended_scenario_def createCall_plain persisted_def endCall_by_host ended_call_def)

text \<open>
  C2 at a call that is already ended. User 10 created the call at time 0 and ended it at
  time 60000. A second end request by user 10 at time 120000 is answered with success
  and overwrites \<open>endedAt\<close> and \<open>duration\<close>: the handler has no check of the status. The
  administrator's handler, which ends calls through the same model method, refuses the
  same call with "Call already ended" and leaves it as it is.
\<close>

theorem endCall_on_ended_call_succeeds:
  "ended_scenario = Some ended_call
   \<and> status ended_call = Ended \<and> endedAt ended_call = Some 60000
   \<and> duration ended_call = Some 60
   \<and> endCall (Some ended_call) 10 120000 =
       (Success ''Call ended successfully'', Some (endCall_method ended_call 120000),
        [CallEndedBy 10])
   \<and> endedAt (endCall_method ended_call 120000) = Some 120000
   \<and> duration (endCall_method ended_call 120000) = Some 120
   \<and> admin_endCall (Some ended_call) 99 120000 =
       (Failure 400 ''Call already ended'', Some ended_call, [])"
proof -
  have host: "host ended_call = 10"
    by (simp add: ended_call_def)
  have ended: "status ended_call = Ended"
    by (simp add: ended_call_def)
  have "duration ended_call = Some 60" "endedAt ended_call = Some 60000"
    by (simp_all add: ended_call_def)
  moreover have "duration (endCall_method ended_call 120000) = Some 120"
    by (simp add: ended_call_def)
  ultimately show ?thesis
    using ended_scenario_reached ended endCall_by_host [OF host] admin_endCall_ended [OF ended]
    by simp
qed

subsection \<open>Entries per user\<close>

lemma find_split:
  "find P xs = Some p \<Longrightarrow>
   \<exists>ys zs. xs = ys @ p # zs \<and> (\<forall>y \<in> set ys. \<not> P y) \<and> update_first P f xs = ys @ f p # zs"
proof (induction xs)
  case Nil
  then show ?case by simp
next
  case (Cons a xs)
  show ?case
  proof (cases "P a")
    case True
    with Cons.prems have "a = p" by simp
    with True have "a # xs = [] @ p # xs \<and> (\<forall>y \<in> set []. \<not> P y)
        \<and> update_first P f (a # xs) = [] @ f p # xs"
      by simp
    then show ?thesis by blast
  next
    case False
    with Cons.prems have "find P xs = Some p" by simp
    from Cons.IH [OF this] obtain ys zs where
      "xs = ys @ p # zs" "\<forall>y \<in> set ys. \<not> P y" "update_first P f xs = ys @ f p # zs"
      by blast
    with False have "a # xs = (a # ys) @ p # zs \<and> (\<forall>y \<in> set (a # ys). \<not> P y)
        \<and> update_first P f (a # xs) = (a # ys) @ f p # zs"
      by simp
    then show ?thesis by blast
  qed
qed

text \<open>
  On a document loaded with a plain \<^verbatim>\<open>findById\<close>, \<open>addParticipant\<close> finds the user's entry:
  it reactivates an inactive entry in place and leaves an active one as it is.
\<close>

lemma addParticipant_FoundById:
  "addParticipant FoundById c uid r perms now =
     Inr (case find (\<lambda>p. userId p = uid) (participants c) of
            Some p \<Rightarrow>
              if \<not> isActive p
              then save (c\<lparr>participants :=
                     update_first (\<lambda>p. userId p = uid) (reactivate now) (participants c)\<rparr>)
              else save c
          | None \<Rightarrow> push_participant c uid r perms now)"
  by (simp add: addParticipant_def find_participant_FoundById split: option.splits)

lemma double_join_scenario_reached: "double_join_scenario = Some double_join_call"
proof -
  define c1 where "c1 = push_participant example_call 2 Participant no_permissions 1000"
  have j1: "joinCall (Some example_call) 2 None everyone 1000 =
      (Success ''Joined call successfully'', Some c1, [UserJoinedCall 2])"
    unfolding c1_def
    by (rule joinCall_open_call) (simp_all add: activeParticipantsCount_def)
  have j2: "joinCall (Some c1) 2 None everyone 2000 =
      (Success ''Joined call successfully'', Some double_join_call, [UserJoinedCall 2])"
    unfolding double_join_call_def c1_def [symmetric]
    by (rule joinCall_open_call) (simp_all add: c1_def activeParticipantsCount_def)
  show ?thesis
    by (simp add: double_join_scenario_def handle_all_def createCall_plain persisted_def j1 j2)
qed

lemma return_scenario_reached: "return_scenario = Some return_call"
proof -
  define c1 where "c1 = push_participant example_call 2 Participant no_permissions 1000"
  define c2 where "c2 = removeParticipant c1 2 3000"
  have p2: "participants c2 =
      [new_participant 10 Host host_permissions 0,
       deactivate 3000 (new_participant 2 Participant no_permissions 1000)]"
    by (simp add: c2_def c1_def removeParticipant_def)
  have j1: "joinCall (Some example_call) 2 None everyone 1000 =
      (Success ''Joined call successfully'', Some c1, [UserJoinedCall 2])"
    unfolding c1_def
    by (rule joinCall_open_call) (simp_all add: activeParticipantsCount_def)
  have l2: "leaveCall_found c1 2 3000 3000 = (c2, [UserLeftCall 2])"
    unfolding c2_def
    by (rule leaveCall_found_other_leaves)
       (simp_all add: c2_def [symmetric] p2 activeParticipantsCount_def, simp add: c1_def)
  have j3: "joinCall (Some c2) 2 None everyone 4000 =
      (Success ''Joined call successfully'', Some return_call, [UserJoinedCall 2])"
    unfolding return_call_def c1_def [symmetric] c2_def [symmetric]
    by (rule joinCall_open_call)
       (simp_all add: activeParticipantsCount_def p2, simp_all add: c2_def c1_def)
  show ?thesis
    by (simp add: return_scenario_def handle_all_def createCall_plain persisted_def j1 j3
        leaveCall_Some l2)
qed

text \<open>
  C6 at two join requests of the same user. \<open>joinCall\<close> loads the call with the
  participants' users populated, so \<open>addParticipant\<close>'s search for the user's entry compares
  the rendering of a user document with the id and never finds the entry: every admitted
  join request pushes a new entry. After user 2 joined user 10's call twice, user 2 has two
  active entries; after user 2 joined, left and joined again, the old entry is still
  inactive, with its old \<open>joinedAt\<close>, beside a new one. The same method on the same
  document loaded with a plain \<^verbatim>\<open>findById\<close> finds the entry and changes nothing.
\<close>

theorem joinCall_pushes_second_entry:
  "double_join_scenario = Some double_join_call
   \<and> roster_of double_join_call = [(10, True, 0), (2, True, 1000), (2, True, 2000)]
   \<and> length (active_entries double_join_call 2) = 2
   \<and> return_scenario = Some return_call
   \<and> roster_of return_call = [(10, True, 0), (2, False, 1000), (2, True, 4000)]
   \<and> map_option roster_of
        (case addParticipant FoundById
                (push_participant example_call 2 Participant no_permissions 1000)
                2 Participant no_permissions 2000 of
           Inl e \<Rightarrow> None | Inr c \<Rightarrow> Some c) =
       Some [(10, True, 0), (2, True, 1000)]"
proof -
  have "roster_of double_join_call = [(10, True, 0), (2, True, 1000), (2, True, 2000)]"
    by (simp add: roster_of_def double_join_call_def)
  moreover have "length (active_entries double_join_call 2) = 2"
    by (simp add: active_entries_def double_join_call_def)
  moreover have "roster_of return_call = [(10, True, 0), (2, False, 1000), (2, True, 4000)]"
    by (simp add: roster_of_def return_call_def removeParticipant_def)
  moreover have "map_option roster_of
        (case addParticipant FoundById
                (push_participant example_call 2 Participant no_permissions 1000)
                2 Participant no_permissions 2000 of
           Inl e \<Rightarrow> None | Inr c \<Rightarrow> Some c) =
       Some [(10, True, 0), (2, True, 1000)]"
    by (simp add: addParticipant_FoundById roster_of_def)
  ultimately show ?thesis
    using double_join_scenario_reached return_scenario_reached by simp
qed

lemma abandoned_call_participants:
  "participants abandoned_call = [deactivate 5000 (new_participant 10 Host host_permissions 0)]"
  by (simp add: abandoned_call_def removeParticipant_def)

subsection \<open>Invitations\<close>

lemma inviteToCall_permitted:
  assumes "find (\<lambda>p. userId p = uid \<and> isActive p) (participants c) = Some p"
    and "canInvite (permissions p)" and "userIds \<noteq> []"
  shows "inviteToCall (Some c) uid userIds now =
    (if fresh_targets c userIds \<noteq> []
     then (case those (map cast_id (fresh_targets c userIds)) of
             None \<Rightarrow> (Failure 500 ''Failed to send invitations'', Some c, [])
           | Some ids \<Rightarrow>
              (SuccessCount ''Invitations sent successfully'' (length (fresh_targets c userIds)),
               Some (invited c uid ids now),
               map (\<lambda>t. CallInvitation t uid) (fresh_targets c userIds)))
     else (SuccessCount ''Invitations sent successfully'' 0, Some c, []))"
  using assms
  by (simp add: inviteToCall_def fresh_targets_def invited_def Let_def split: option.split)

lemma respondToInvitation_pending:
  assumes "find (\<lambda>i. inv_userId i = uid \<and> inv_status i = Pending) (invitations c) = Some i"
    and "r = Accepted \<or> r = Declined"
  shows "persisted (respondToInvitation (Some c) uid r now) = Some (responded c uid r now)"
  using assms by (auto simp: respondToInvitation_def persisted_def responded_def)

lemma invited_fields [simp]:
  "invitations (invited c uid targets now) =
     invitations c @ map (new_invitation uid now) targets"
  "participants (invited c uid targets now) = participants c"
  "status (invited c uid targets now) = status c"
  "settings (invited c uid targets now) = settings c"
  "maxParticipants (invited c uid targets now) = maxParticipants c"
  "host (invited c uid targets now) = host c"
  by (simp_all add: invited_def)

lemma responded_fields [simp]:
  "invitations (responded c uid r now) =
     update_first (\<lambda>i. inv_userId i = uid \<and> inv_status i = Pending) (respond r now)
       (invitations c)"
  "participants (responded c uid r now) = participants c"
  "status (responded c uid r now) = status c"
  "settings (responded c uid r now) = settings c"
  "maxParticipants (responded c uid r now) = maxParticipants c"
  "host (responded c uid r now) = host c"
  by (simp_all add: responded_def)

lemma activeParticipantsCount_invited [simp]:
  "activeParticipantsCount (invited c uid targets now) = activeParticipantsCount c"
  "activeParticipantsCount (responded c uid r now) = activeParticipantsCount c"
  by (simp_all add: activeParticipantsCount_def)

lemma pending_of_new_invitations:
  "filter (\<lambda>i. inv_userId i = t \<and> inv_status i = Pending) (map (new_invitation uid now) ts)
     = map (new_invitation uid now) (filter (\<lambda>x. x = t) ts)"
  by (induction ts) (auto simp: new_invitation_def)

lemma distinct_filter_eq_length: "distinct ts \<Longrightarrow> length (filter (\<lambda>x. x = t) ts) \<le> 1"
proof (induction ts)
  case Nil
  then show ?case by simp
next
  case (Cons a ts)
  show ?case
  proof (cases "a = t")
    case True
    with Cons.prems have "t \<notin> set ts" by simp
    then have "filter (\<lambda>x. x = t) ts = []"
      by (auto simp: filter_empty_conv)
    with True show ?thesis by simp
  next
    case False
    with Cons show ?thesis by simp
  qed
qed

lemma pending_invitations_invited:
  "pending_invitations (invited c uid targets now) t =
     pending_invitations c t @ map (new_invitation uid now) (filter (\<lambda>x. x = t) targets)"
  by (simp add: pending_invitations_def pending_of_new_invitations)

lemma those_cast_Canonical:
  "those (map cast_id (map Canonical us)) = Some us"
  "those (map (cast_id \<circ> Canonical) us) = Some us"
  by (induction us) simp_all

lemma fresh_targets_Canonical:
  "fresh_targets c (map Canonical us) = map Canonical (fresh_users c us)"
proof -
  have "alreadyInvited c (Canonical u) \<longleftrightarrow> u \<in> inv_userId ` set (invitations c)" for u
    by (auto simp: alreadyInvited_def list_ex_iff)
  moreover have "alreadyParticipating c (Canonical u) \<longleftrightarrow> u \<in> userId ` set (participants c)" for u
    by (auto simp: alreadyParticipating_def list_ex_iff)
  ultimately show ?thesis
    by (simp add: fresh_targets_def fresh_users_def filter_map comp_def)
qed

lemma fresh_user_not_pending:
  assumes "u \<in> set (fresh_users c us)"
  shows "pending_invitations c u = []"
proof -
  from assms have "u \<notin> inv_userId ` set (invitations c)"
    by (simp add: fresh_users_def)
  then have "\<forall>i \<in> set (invitations c). inv_userId i \<noteq> u"
    by auto
  then show ?thesis
    by (simp add: pending_invitations_def filter_empty_conv)
qed

lemma invited_one_pending:
  assumes "distinct us" and "\<forall>t. length (pending_invitations c t) \<le> 1"
  shows "length (pending_invitations (invited c uid (fresh_users c us) now) t) \<le> 1"
proof (cases "t \<in> set (fresh_users c us)")
  case True
  have "distinct (fresh_users c us)"
    using assms(1) by (simp add: fresh_users_def)
  then have "length (filter (\<lambda>x. x = t) (fresh_users c us)) \<le> 1"
    by (rule distinct_filter_eq_length)
  with fresh_user_not_pending [OF True] show ?thesis
    by (simp add: pending_invitations_invited)
next
  case False
  then have "filter (\<lambda>x. x = t) (fresh_users c us) = []"
    by (auto simp: filter_empty_conv)
  with assms(2) show ?thesis
    by (simp add: pending_invitations_invited)
qed

lemma createCall_invitations:
  "inviteUserIds rq = map Canonical us \<Longrightarrow> persisted (createCall u h rq t) = Some c \<Longrightarrow>
   invitations c = map (new_invitation h t) us"
  by (auto simp: createCall_def persisted_def Let_def addParticipant_first those_cast_Canonical
      split: if_splits)


lemma example_call_host_entry:
  "find (\<lambda>p. userId p = 10 \<and> isActive p) (participants example_call)
     = Some (new_participant 10 Host host_permissions 0)"
  by simp

lemma host_entry_canInvite: "canInvite (permissions (new_participant 10 Host host_permissions 0))"
  by (simp add: new_participant_def)

lemma example_call_no_pending: "\<forall>t. length (pending_invitations example_call t) \<le> 1"
  by (simp add: pending_invitations_def)

lemma fresh_users_example_call [simp]:
  "fresh_users example_call [2, 3] = [2, 3]"
  "fresh_users example_call [2] = [2]"
  "fresh_users example_call [2, 2] = [2, 2]"
  by (simp_all add: fresh_users_def)


lemma invite_user_2:
  "persisted (inviteToCall (Some example_call) 10 [Canonical 2] 1000) = Some invited_call"
proof -
  have ne: "[Canonical 2] \<noteq> []" by simp
  have fresh: "fresh_targets example_call [Canonical 2] = [Canonical 2]"
    using fresh_targets_Canonical [of example_call "[2]"] by simp
  show ?thesis
    by (simp add: inviteToCall_permitted [OF example_call_host_entry host_entry_canInvite ne]
        fresh persisted_def invited_call_def)
qed

lemma invited_call_fields [simp]:
  "invitations invited_call = [new_invitation 10 1000 2]"
  "participants invited_call = [new_participant 10 Host host_permissions 0]"
  by (simp_all add: invited_call_def)

lemma declined_scenario_reached: "declined_scenario = Some declined_call"
proof -
  have "find (\<lambda>i. inv_userId i = 2 \<and> inv_status i = Pending) (invitations invited_call)
      = Some (new_invitation 10 1000 2)"
    by (simp add: new_invitation_def)
  then have "persisted (respondToInvitation (Some invited_call) 2 Declined 2000)
      = Some declined_call"
    unfolding declined_call_def by (rule respondToInvitation_pending) simp
  then show ?thesis
    by (simp add: declined_scenario_def createCall_plain persisted_def [of "(_, _, _)"]
        invite_user_2)
qed

lemma declined_call_invitations:
  "invitations declined_call = [respond Declined 2000 (new_invitation 10 1000 2)]"
  by (simp add: declined_call_def new_invitation_def)

lemma declined_call_host_entry:
  "find (\<lambda>p. userId p = 10 \<and> isActive p) (participants declined_call)
     = Some (new_participant 10 Host host_permissions 0)"
  by (simp add: declined_call_def)


text \<open>
  Requests outside the last part of C7. A request that names a user twice passes both
  occurrences, since each is tested against the stored invitations only. A request that
  spells the id of a user with a pending invitation in another way, in upper case for
  one, is not skipped, since the strings differ, and casts to the same user. Either way
  the user has two pending invitations. A string that does not cast fails the whole
  request.
\<close>

lemma inviteToCall_repeated_target:
  "fst (inviteToCall (Some example_call) 10 [Canonical 2, Canonical 2] 1000) =
     SuccessCount ''Invitations sent successfully'' 2
   \<and> map_option invitations_of
        (persisted (inviteToCall (Some example_call) 10 [Canonical 2, Canonical 2] 1000)) =
       Some [(2, Pending), (2, Pending)]"
proof -
  have ne: "[Canonical 2, Canonical 2] \<noteq> []" by simp
  have fresh: "fresh_targets example_call [Canonical 2, Canonical 2] = [Canonical 2, Canonical 2]"
    using fresh_targets_Canonical [of example_call "[2, 2]"] by simp
  show ?thesis
    by (simp add: inviteToCall_permitted [OF example_call_host_entry host_entry_canInvite ne]
        fresh persisted_def invitations_of_def new_invitation_def)
qed

lemma inviteToCall_other_spelling:
  "pending_invitations invited_call 2 = [new_invitation 10 1000 2]
   \<and> fst (inviteToCall (Some invited_call) 10 [Variant 2] 3000) =
       SuccessCount ''Invitations sent successfully'' 1
   \<and> map_option invitations_of
        (persisted (inviteToCall (Some invited_call) 10 [Variant 2] 3000)) =
       Some [(2, Pending), (2, Pending)]"
proof -
  have ne: "[Variant 2] \<noteq> []" by simp
  have entry: "find (\<lambda>p. userId p = 10 \<and> isActive p) (participants invited_call)
      = Some (new_participant 10 Host host_permissions 0)"
    by simp
  have fresh: "fresh_targets invited_call [Variant 2] = [Variant 2]"
    by (simp add: fresh_targets_def alreadyInvited_def alreadyParticipating_def)
  show ?thesis
    by (simp add: inviteToCall_permitted [OF entry host_entry_canInvite ne]
        fresh persisted_def invitations_of_def new_invitation_def pending_invitations_def)
qed

lemma inviteToCall_uncastable:
  "inviteToCall (Some example_call) 10 [Canonical 2, Uncastable] 1000 =
     (Failure 500 ''Failed to send invitations'', Some example_call, [])"
proof -
  have ne: "[Canonical 2, Uncastable] \<noteq> []" by simp
  have fresh: "fresh_targets example_call [Canonical 2, Uncastable] = [Canonical 2, Uncastable]"
    by (simp add: fresh_targets_def alreadyInvited_def alreadyParticipating_def)
  show ?thesis
    by (simp add: inviteToCall_permitted [OF example_call_host_entry host_entry_canInvite ne]
        fresh)
qed

subsection \<open>Admission\<close>

lemma find_pending_nonempty:
  "pending_invitations c uid \<noteq> [] \<Longrightarrow>
   \<exists>i. find (\<lambda>i. inv_userId i = uid \<and> inv_status i = Pending) (invitations c) = Some i"
proof -
  assume "pending_invitations c uid \<noteq> []"
  then have "\<exists>i \<in> set (invitations c). inv_userId i = uid \<and> inv_status i = Pending"
    by (auto simp: pending_invitations_def filter_empty_conv)
  then have "find (\<lambda>i. inv_userId i = uid \<and> inv_status i = Pending) (invitations c) \<noteq> None"
    by (auto simp: find_None_iff)
  then show ?thesis by auto
qed

lemma accepted_after_response:
  assumes "find (\<lambda>i. inv_userId i = uid \<and> inv_status i = Pending) (invitations c) = Some i"
  shows "accepted_invitations (responded c uid Accepted now) uid \<noteq> []"
proof -
  from find_split [OF assms, of "respond Accepted now"] obtain ys zs where
    "update_first (\<lambda>i. inv_userId i = uid \<and> inv_status i = Pending) (respond Accepted now)
       (invitations c) = ys @ respond Accepted now i # zs"
    by blast
  moreover have "inv_userId i = uid"
    using find_Some_set [OF assms] by simp
  ultimately show ?thesis
    by (simp add: accepted_invitations_def respond_def filter_empty_conv)
qed

text \<open>
  \<open>canUserJoin\<close> on the document \<open>joinCall\<close> loads. In a locked room the search for the
  user's participant entry finds nothing when every participant's user document exists,
  and throws when one does not.
\<close>

lemma canUserJoin_joining:
  "canUserJoin (Populated exists) c uid =
     (if status c \<noteq> Active \<and> status c \<noteq> Scheduled then Inr (CannotJoin ''Call is not active'')
      else if maxParticipants c \<le> int (activeParticipantsCount c) then Inr (CannotJoin ''Call is full'')
      else if lockRoom (settings c)
      then (if \<not> list_all (\<lambda>p. exists (userId p)) (participants c) then Inl TypeError
            else if accepted_invitations c uid = [] then Inr (CannotJoin ''Room is locked'')
            else Inr CanJoin)
      else Inr CanJoin)"
  by (auto simp: canUserJoin_def find_participant_Populated accepted_invitations_def
      list_ex_iff filter_empty_conv)

lemma joinCall_refused:
  "canUserJoin (Populated (\<lambda>u. users u \<noteq> None)) c uid = Inr (CannotJoin reason) \<Longrightarrow>
   joinCall (Some c) uid pw users now = (Failure 403 reason, Some c, [])"
  by (simp add: joinCall_def)

lemma joinCall_thrown:
  "canUserJoin (Populated (\<lambda>u. users u \<noteq> None)) c uid = Inl e \<Longrightarrow>
   joinCall (Some c) uid pw users now = (Failure 500 ''Failed to join call'', Some c, [])"
  by (simp add: joinCall_def)


lemma locked_call_fields [simp]:
  "participants locked_call = [new_participant 10 Host host_permissions 0]"
  "status locked_call = Active"
  "host locked_call = 10"
  "invitations locked_call = []"
  "maxParticipants locked_call = 4"
  "lockRoom (settings locked_call) = True"
  "requirePassword (settings locked_call) = False"
  by (simp_all add: locked_call_def locked_request_def plain_request_def
      no_settings_def example_user_def truthy_def)

lemma full_call_fields [simp]:
  "participants full_call =
     [new_participant 10 Host host_permissions 0, new_participant 2 Participant no_permissions 1000]"
  "status full_call = Active"
  "maxParticipants full_call = 2"
  by (simp_all add: full_call_def small_request_def plain_request_def example_user_def)

lemma ended_call_fields [simp]:
  "status ended_call = Ended"
  "maxParticipants ended_call = 4"
  "activeParticipantsCount ended_call = 0"
  by (simp_all add: ended_call_def activeParticipantsCount_def endCall_method_def)

lemma example_counts [simp]:
  "activeParticipantsCount full_call = 2"
  "activeParticipantsCount locked_call = 1"
  "activeParticipantsCount example_call = 1"
  by (simp_all add: activeParticipantsCount_def)

lemma locked_invited_call_fields [simp]:
  "participants locked_invited_call = [new_participant 10 Host host_permissions 0]"
  "status locked_invited_call = Active"
  "maxParticipants locked_invited_call = 4"
  "lockRoom (settings locked_invited_call) = True"
  "activeParticipantsCount locked_invited_call = 1"
  "pending_invitations locked_invited_call 2 = [new_invitation 10 1000 2]"
  "accepted_invitations locked_invited_call 2 = []"
  "accepted_invitations locked_call uid = []"
  by (simp_all add: locked_invited_call_def pending_invitations_def accepted_invitations_def
      new_invitation_def)



subsection \<open>Chat messages\<close>

lemma letter_not_whitespace [simp]: "\<not> js_whitespace 0x61"
  by (simp add: js_whitespace_def)

lemma space_whitespace [simp]: "js_whitespace 0x20"
  by (simp add: js_whitespace_def)

lemma js_trim_thousand_letters [simp]: "js_trim thousand_letters = thousand_letters"
  by (simp add: js_trim_def thousand_letters_def dropWhile_replicate)

lemma js_trim_padded_message [simp]: "js_trim padded_message = thousand_letters"
proof -
  have "dropWhile js_whitespace (thousand_letters @ [0x20]) = thousand_letters @ [0x20]"
    by (simp add: thousand_letters_def dropWhile_append1 [where x = "0x61"])
  then show ?thesis
    by (simp add: js_trim_def padded_message_def) (simp add: thousand_letters_def dropWhile_replicate)
qed

lemma js_trim_thousand_spaces [simp]: "js_trim thousand_spaces = []"
  by (simp add: js_trim_def thousand_spaces_def dropWhile_replicate)

lemma length_examples [simp]:
  "length thousand_letters = 1000"
  "length padded_message = 1001"
  "length thousand_spaces = 1000"
  by (simp_all add: thousand_letters_def padded_message_def thousand_spaces_def)

lemma thousand_letters_nonempty [simp]: "thousand_letters \<noteq> []"
  using length_examples(1) by fastforce

lemma find_active_None_iff:
  "find (\<lambda>p. userId p = uid \<and> isActive p) (participants c) = None \<longleftrightarrow> active_entries c uid = []"
  by (auto simp: active_entries_def find_None_iff filter_empty_conv)

lemma sendChatMessage_nonempty:
  assumes "js_trim m \<noteq> []"
  shows "sendChatMessage (Some c) uid (Some m) mtype now =
    (if active_entries c uid = []
     then (Failure 403 ''You are not a participant in this call'', Some c, [])
     else if \<not> allowChat (settings c)
     then (Failure 403 ''Chat is disabled for this call'', Some c, [])
     else (case addChatMessage c uid (js_trim m) (case mtype of None \<Rightarrow> ''text'' | Some t \<Rightarrow> t) now of
             Inl err \<Rightarrow> (Failure 500 ''Failed to send message'', Some c, [])
           | Inr c' \<Rightarrow>
              (Success ''Message sent successfully'', Some c',
               [NewChatMessage uid (js_trim m) (case mtype of None \<Rightarrow> ''text'' | Some t \<Rightarrow> t)])))"
proof -
  from assms have "m \<noteq> []" by (auto simp: js_trim_def)
  with assms show ?thesis
    by (auto simp: sendChatMessage_def Let_def find_active_None_iff [symmetric]
        split: option.splits)
qed


lemma js_trim_long_message [simp]: "js_trim long_message = long_message"
proof -
  have "dropWhile js_whitespace (thousand_letters @ [0x61]) = thousand_letters @ [0x61]"
    by (simp add: thousand_letters_def dropWhile_append1 [where x = "0x61"])
  then show ?thesis
    by (simp add: js_trim_def long_message_def)
qed

lemma length_long_message [simp]: "length long_message = 1001"
  by (simp add: long_message_def)

lemma long_message_nonempty [simp]: "long_message \<noteq> []"
  by (simp add: long_message_def)

lemma active_entries_example_call [simp]:
  "active_entries example_call 10 = [new_participant 10 Host host_permissions 0]"
  "active_entries example_call 2 = []"
  by (simp_all add: active_entries_def)

text \<open>
  C9, as the code has it. The checks run in this order, on the text with white space
  trimmed from both ends. An absent text or one that is empty after trimming is refused
  with status 400. Otherwise a sender who is not an active participant, or a call with
  chat switched off, is refused with status 403. Otherwise a trimmed text of more than
  1000 characters (or a message type outside the four kinds) makes the save fail with
  Mongoose's \<open>ValidationError\<close>, which the handler answers with status 500, and nothing is
  stored. Otherwise the trimmed text is appended and \<open>totalMessages\<close> is the number of
  stored messages, one more than before.
\<close>

theorem sendChatMessage_outcomes:
  fixes mtype :: "string option"
  defines "mt \<equiv> (case mtype of None \<Rightarrow> ''text'' | Some t \<Rightarrow> t)"
  shows
  "((case msg of None \<Rightarrow> True | Some m' \<Rightarrow> js_trim m' = []) \<longrightarrow>
      sendChatMessage found uid msg mtype now = (Failure 400 ''Message cannot be empty'', found, []))
   \<and> (js_trim m \<noteq> [] \<and> (active_entries c uid = [] \<or> \<not> allowChat (settings c)) \<longrightarrow>
        (\<exists>reason. sendChatMessage (Some c) uid (Some m) mtype now =
                    (Failure 403 reason, Some c, [])))
   \<and> (js_trim m \<noteq> [] \<and> active_entries c uid \<noteq> [] \<and> allowChat (settings c)
        \<and> (length (js_trim m) > 1000 \<or> mt \<notin> set [''text'', ''system'', ''file'', ''emoji'']) \<longrightarrow>
        addChatMessage c uid (js_trim m) mt now = Inl ValidationError
        \<and> sendChatMessage (Some c) uid (Some m) mtype now =
            (Failure 500 ''Failed to send message'', Some c, []))
   \<and> (js_trim m \<noteq> [] \<and> active_entries c uid \<noteq> [] \<and> allowChat (settings c)
        \<and> length (js_trim m) \<le> 1000 \<and> mt \<in> set [''text'', ''system'', ''file'', ''emoji''] \<longrightarrow>
        sendChatMessage (Some c) uid (Some m) mtype now =
          (Success ''Message sent successfully'',
           Some (save (c\<lparr>chatMessages := chatMessages c @
                   [\<lparr>senderId = uid, message = js_trim m, timestamp = now, messageType = mt\<rparr>]\<rparr>)),
           [NewChatMessage uid (js_trim m) mt])
        \<and> totalMessages (analytics (save (c\<lparr>chatMessages := chatMessages c @
                   [\<lparr>senderId = uid, message = js_trim m, timestamp = now, messageType = mt\<rparr>]\<rparr>)))
            = length (chatMessages c) + 1)"
proof -
  have empty: "sendChatMessage found uid msg mtype now =
      (Failure 400 ''Message cannot be empty'', found, [])"
    if "case msg of None \<Rightarrow> True | Some m' \<Rightarrow> js_trim m' = []"
  proof (cases msg)
    case None
    then show ?thesis by (simp add: sendChatMessage_def)
  next
    case (Some m')
    with that have "js_trim m' = []" by simp
    with Some show ?thesis by (simp add: sendChatMessage_def)
  qed
  have forbidden: "\<exists>reason. sendChatMessage (Some c) uid (Some m) mtype now =
                    (Failure 403 reason, Some c, [])"
    if "js_trim m \<noteq> [] \<and> (active_entries c uid = [] \<or> \<not> allowChat (settings c))"
    using that by (auto simp: sendChatMessage_nonempty)
  have invalid: "addChatMessage c uid (js_trim m) mt now = Inl ValidationError
        \<and> sendChatMessage (Some c) uid (Some m) mtype now =
            (Failure 500 ''Failed to send message'', Some c, [])"
    if "js_trim m \<noteq> [] \<and> active_entries c uid \<noteq> [] \<and> allowChat (settings c)
        \<and> (length (js_trim m) > 1000 \<or> mt \<notin> set [''text'', ''system'', ''file'', ''emoji''])"
  proof -
    from that have "addChatMessage c uid (js_trim m) mt now = Inl ValidationError"
      by (auto simp: addChatMessage_def valid_chat_message_def)
    with that show ?thesis
      by (simp add: sendChatMessage_nonempty mt_def)
  qed
  have stored: "sendChatMessage (Some c) uid (Some m) mtype now =
          (Success ''Message sent successfully'',
           Some (save (c\<lparr>chatMessages := chatMessages c @
                   [\<lparr>senderId = uid, message = js_trim m, timestamp = now, messageType = mt\<rparr>]\<rparr>)),
           [NewChatMessage uid (js_trim m) mt])
        \<and> totalMessages (analytics (save (c\<lparr>chatMessages := chatMessages c @
                   [\<lparr>senderId = uid, message = js_trim m, timestamp = now, messageType = mt\<rparr>]\<rparr>)))
            = length (chatMessages c) + 1"
    if "js_trim m \<noteq> [] \<and> active_entries c uid \<noteq> [] \<and> allowChat (settings c)
        \<and> length (js_trim m) \<le> 1000 \<and> mt \<in> set [''text'', ''system'', ''file'', ''emoji'']"
  proof -
    from that have "addChatMessage c uid (js_trim m) mt now =
        Inr (save (c\<lparr>chatMessages := chatMessages c @
                   [\<lparr>senderId = uid, message = js_trim m, timestamp = now, messageType = mt\<rparr>]\<rparr>))"
      by (simp add: addChatMessage_def valid_chat_message_def)
    with that show ?thesis
      by (simp add: sendChatMessage_nonempty mt_def)
  qed
  from empty forbidden invalid stored show ?thesis by blast
qed


lemma example_call_chatMessages [simp]: "chatMessages example_call = []"
  by (simp add: example_call_def)

theorem sendChatMessage_outcomes_witness:
  "js_trim thousand_spaces = []
   \<and> sendChatMessage (Some example_call) 10 (Some thousand_spaces) None 5000 =
       (Failure 400 ''Message cannot be empty'', Some example_call, [])
   \<and> active_entries example_call 2 = []
   \<and> (\<exists>reason. sendChatMessage (Some example_call) 2 (Some thousand_letters) None 5000 =
                  (Failure 403 reason, Some example_call, []))
   \<and> length (js_trim long_message) = 1001
   \<and> sendChatMessage (Some example_call) 10 (Some long_message) None 5000 =
       (Failure 500 ''Failed to send message'', Some example_call, [])
   \<and> length (js_trim thousand_letters) = 1000
   \<and> fst (sendChatMessage (Some example_call) 10 (Some thousand_letters) None 5000) =
       Success ''Message sent successfully''
   \<and> map_option (totalMessages \<circ> analytics)
        (persisted (sendChatMessage (Some example_call) 10 (Some thousand_letters) None 5000)) =
       Some 1"
proof -
  note i1 = sendChatMessage_outcomes
      [where mtype = None and msg = "Some thousand_spaces" and found = "Some example_call"
         and uid = 10 and now = 5000 and m = thousand_letters and c = example_call]
  note i2 = sendChatMessage_outcomes
      [where mtype = None and uid = 2 and now = 5000 and m = thousand_letters
         and c = example_call]
  note i3 = sendChatMessage_outcomes
      [where mtype = None and uid = 10 and now = 5000 and m = long_message
         and c = example_call]
  have a: "sendChatMessage (Some example_call) 10 (Some thousand_spaces) None 5000 =
       (Failure 400 ''Message cannot be empty'', Some example_call, [])"
    using i1 by simp
  have b: "\<exists>reason. sendChatMessage (Some example_call) 2 (Some thousand_letters) None 5000 =
                  (Failure 403 reason, Some example_call, [])"
    using i2 by simp
  have c: "sendChatMessage (Some example_call) 10 (Some long_message) None 5000 =
       (Failure 500 ''Failed to send message'', Some example_call, [])"
    using i3 by simp
  have d: "fst (sendChatMessage (Some example_call) 10 (Some thousand_letters) None 5000) =
       Success ''Message sent successfully''
     \<and> map_option (totalMessages \<circ> analytics)
        (persisted (sendChatMessage (Some example_call) 10 (Some thousand_letters) None 5000)) =
       Some 1"
    using i1 by (simp add: persisted_def)
  from a b c d show ?thesis by simp
qed

text \<open>
  C9, as stated, fails on white space. A text of 1001 characters, 1000 letters and a
  final space, from an active participant of a call with chat allowed is stored, without
  the space; a text of 1000 spaces from the same participant is refused as empty.
\<close>

theorem sendChatMessage_trims_counterexample:
  "length padded_message = 1001
   \<and> active_entries example_call 10 \<noteq> []
   \<and> allowChat (settings example_call)
   \<and> fst (sendChatMessage (Some example_call) 10 (Some padded_message) None 5000) =
       Success ''Message sent successfully''
   \<and> map_option (map message \<circ> chatMessages)
        (persisted (sendChatMessage (Some example_call) 10 (Some padded_message) None 5000)) =
       Some [thousand_letters]
   \<and> length thousand_spaces = 1000
   \<and> sendChatMessage (Some example_call) 10 (Some thousand_spaces) None 5000 =
       (Failure 400 ''Message cannot be empty'', Some example_call, [])"
proof -
  have ne: "js_trim padded_message \<noteq> []" by simp
  have "addChatMessage example_call 10 thousand_letters ''text'' 5000 =
      Inr (save (example_call\<lparr>chatMessages :=
             [\<lparr>senderId = 10, message = thousand_letters, timestamp = 5000,
               messageType = ''text''\<rparr>]\<rparr>))"
    by (simp add: addChatMessage_def valid_chat_message_def)
  then have "fst (sendChatMessage (Some example_call) 10 (Some padded_message) None 5000) =
       Success ''Message sent successfully''
     \<and> map_option (map message \<circ> chatMessages)
        (persisted (sendChatMessage (Some example_call) 10 (Some padded_message) None 5000)) =
       Some [thousand_letters]"
    by (simp add: sendChatMessage_nonempty [OF ne] persisted_def)
  moreover have "sendChatMessage (Some example_call) 10 (Some thousand_spaces) None 5000 =
       (Failure 400 ''Message cannot be empty'', Some example_call, [])"
    by (simp add: sendChatMessage_def)
  ultimately show ?thesis by simp
qed

subsection \<open>The join-room handler\<close>

text \<open>
  C3, as the code has it. The \<^verbatim>\<open>join-room\<close> handler reads and writes no persisted call:
  whatever the room identifier names and whether or not \<open>canUserJoin\<close> would allow the
  user, the store is as before. The socket enters the room, the user becomes a member,
  the user-joined event goes to the sockets that were in the room except the joiner's
  own, and the joiner's socket receives the members the room had, without the joiner,
  each with its connection entry.
\<close>

theorem joinRoom_subscribes_unconditionally:
  "calls (fst (joinRoom s sock uid roomId)) = calls s
   \<and> socketRooms (fst (joinRoom s sock uid roomId)) roomId = insert sock (socketRooms s roomId)
   \<and> map_option set (activeRooms (fst (joinRoom s sock uid roomId)) roomId) =
       Some (insert uid (set (room_members s roomId)))
   \<and> snd (joinRoom s sock uid roomId) =
       [(socketRooms s roomId - {sock}, UserJoined uid roomId),
        ({sock}, RoomParticipants roomId
           (map (\<lambda>u. (u, connectedUsers s u)) (filter (\<lambda>u. u \<noteq> uid) (room_members s roomId))))]"
proof -
  have "filter (\<lambda>u. u \<noteq> uid) (set_add uid ms) = filter (\<lambda>u. u \<noteq> uid) ms" for ms
    by (simp add: set_add_def)
  moreover have "set (set_add uid ms) = insert uid (set ms)" for ms
    by (auto simp: set_add_def)
  ultimately show ?thesis
    by (simp add: joinRoom_def Let_def)
qed

text \<open>
  C3, as stated, fails: no \<open>canUserJoin\<close> and no join on the persisted call. Room 7 names
  an ended call, which \<open>canUserJoin\<close> refuses, and user 2 has no participant entry in it.
  After user 2's \<^verbatim>\<open>join-room\<close> for room 7 the user is a member of the room, the events are
  sent, and the persisted call is the same, still without an entry for user 2.
\<close>

theorem joinRoom_ignores_call_counterexample:
  "calls example_server 7 = Some ended_call
   \<and> canUserJoin FoundById ended_call 2 = Inr (CannotJoin ''Call is not active'')
   \<and> canUserJoin (Populated (\<lambda>u. True)) ended_call 2 = Inr (CannotJoin ''Call is not active'')
   \<and> find (\<lambda>p. userId p = 2) (participants ended_call) = None
   \<and> calls (fst (joinRoom example_server 20 2 7)) 7 = Some ended_call
   \<and> activeRooms (fst (joinRoom example_server 20 2 7)) 7 = Some [2]
   \<and> socketRooms (fst (joinRoom example_server 20 2 7)) 7 = {20}
   \<and> snd (joinRoom example_server 20 2 7) =
       [({}, UserJoined 2 7), ({20}, RoomParticipants 7 [])]"
proof -
  have "find (\<lambda>p. userId p = 2) (participants ended_call) = None"
    by (simp add: ended_call_def endCall_method_def)
  moreover have "canUserJoin l ended_call 2 = Inr (CannotJoin ''Call is not active'')" for l
    by (simp add: canUserJoin_def ended_call_def endCall_method_def)
  ultimately show ?thesis
    by (simp add: joinRoom_def example_server_def room_members_def set_add_def Let_def)
qed

end
